theory Spec2Isabelle
  imports Complex_Main "HOL-Library.Log_Nat"
begin

section \<open>JavaScript values\<close>

text \<open>
  The helpers of \<^verbatim>\<open>src/helpers/33Together.js\<close> receive untyped arguments. The values
  that reach them are \<^verbatim>\<open>undefined\<close>, Numbers, strings and ethers \<^verbatim>\<open>BigNumber\<close>
  objects. A Number is an IEEE-754 binary64 value: a finite rational, an infinity or
  NaN. The sign of zero is not represented (\<^verbatim>\<open>===\<close> cannot tell the two zeros
  apart). A \<^verbatim>\<open>BigNumber\<close> is an integer of any size.
\<close>

datatype jsnum = Fin rat | PInf | NInf | NaN

datatype jsval = Undefined | Number jsnum | Str string | BigNumber int

text \<open>
  Strict equality \<^verbatim>\<open>===\<close>. NaN is not equal to itself. In this module the right operand
  is always a primitive, and an object (a \<^verbatim>\<open>BigNumber\<close>) is never \<^verbatim>\<open>===\<close> to a primitive.
\<close>

fun strict_eq :: "jsval \<Rightarrow> jsval \<Rightarrow> bool" where
  "strict_eq Undefined Undefined = True"
| "strict_eq (Number a) (Number b) = (a = b \<and> a \<noteq> NaN)"
| "strict_eq (Str a) (Str b) = (a = b)"
| "strict_eq _ _ = False"

text \<open>The relational operators \<^verbatim>\<open><=\<close> and \<^verbatim>\<open><\<close> on Numbers: false as soon as an operand is NaN.\<close>

fun js_le :: "jsnum \<Rightarrow> jsnum \<Rightarrow> bool" where
  "js_le NaN _ = False"
| "js_le _ NaN = False"
| "js_le NInf _ = True"
| "js_le _ PInf = True"
| "js_le (Fin a) (Fin b) = (a \<le> b)"
| "js_le PInf _ = False"
| "js_le _ NInf = False"

fun js_lt :: "jsnum \<Rightarrow> jsnum \<Rightarrow> bool" where
  "js_lt NaN _ = False"
| "js_lt _ NaN = False"
| "js_lt PInf _ = False"
| "js_lt _ NInf = False"
| "js_lt (Fin a) (Fin b) = (a < b)"
| "js_lt NInf _ = True"
| "js_lt _ PInf = True"

section \<open>Number arithmetic\<close>

text \<open>
  Every arithmetic operation on Numbers computes the exact result and rounds it to the
  nearest binary64 value, ties to the value with an even significand. \<open>fl\<close> is that
  rounding on a rational \<open>x\<close>: with \<open>2 ^ L \<le> \<bar>x\<bar> < 2 ^ (L + 1)\<close> the spacing of the
  binary64 values around \<open>x\<close> is \<open>2 ^ (L - 52)\<close>, and never less than \<open>2 ^ - 1074\<close>
  (the subnormal range); \<open>x\<close> is rounded to a multiple of the spacing, and a rounded
  value of magnitude \<open>2 ^ 1024\<close> or more is an infinity.
\<close>

definition pow2 :: "int \<Rightarrow> rat" where
  "pow2 e = (if 0 \<le> e then 2 ^ nat e else 1 / 2 ^ nat (- e))"

text \<open>For \<open>x > 0\<close>, \<open>floor_log2 x\<close> is the \<open>L\<close> with \<open>2 ^ L \<le> x < 2 ^ (L + 1)\<close>.\<close>

definition floor_log2 :: "rat \<Rightarrow> int" where
  "floor_log2 x =
     (let (p, q) = quotient_of x; k = bitlen p - bitlen q
      in if pow2 k \<le> x then k else k - 1)"

definition round_half_even :: "rat \<Rightarrow> int" where
  "round_half_even x =
     (let f = \<lfloor>x\<rfloor>; d = x - of_int f
      in if d < 1 / 2 then f else if 1 / 2 < d then f + 1 else if even f then f else f + 1)"

definition fl :: "rat \<Rightarrow> jsnum" where
  "fl x =
     (if x = 0 then Fin 0
      else let e = max (floor_log2 \<bar>x\<bar> - 52) (- 1074);
               m = round_half_even (x / pow2 e)
           in if 1024 < bitlen \<bar>m\<bar> + e then (if 0 < x then PInf else NInf)
              else Fin (of_int m * pow2 e))"

fun fneg :: "jsnum \<Rightarrow> jsnum" where
  "fneg (Fin x) = Fin (- x)"
| "fneg PInf = NInf"
| "fneg NInf = PInf"
| "fneg NaN = NaN"

text \<open>
  The operators \<^verbatim>\<open>-\<close>, \<^verbatim>\<open>*\<close> and \<^verbatim>\<open>/\<close> on Numbers, with the IEEE rules for infinities and
  NaN. A zero divisor is taken as \<open>+0\<close>: the zero divisors of this module are a zero
  argument and the difference of two equal Numbers, which is \<open>+0\<close>.
\<close>

fun fsub :: "jsnum \<Rightarrow> jsnum \<Rightarrow> jsnum" where
  "fsub NaN _ = NaN"
| "fsub _ NaN = NaN"
| "fsub PInf PInf = NaN"
| "fsub NInf NInf = NaN"
| "fsub PInf _ = PInf"
| "fsub NInf _ = NInf"
| "fsub (Fin a) PInf = NInf"
| "fsub (Fin a) NInf = PInf"
| "fsub (Fin a) (Fin b) = fl (a - b)"

fun fmul :: "jsnum \<Rightarrow> jsnum \<Rightarrow> jsnum" where
  "fmul NaN _ = NaN"
| "fmul _ NaN = NaN"
| "fmul (Fin a) (Fin b) = fl (a * b)"
| "fmul (Fin a) PInf = (if a = 0 then NaN else if 0 < a then PInf else NInf)"
| "fmul (Fin a) NInf = (if a = 0 then NaN else if 0 < a then NInf else PInf)"
| "fmul PInf (Fin b) = (if b = 0 then NaN else if 0 < b then PInf else NInf)"
| "fmul NInf (Fin b) = (if b = 0 then NaN else if 0 < b then NInf else PInf)"
| "fmul PInf PInf = PInf"
| "fmul PInf NInf = NInf"
| "fmul NInf PInf = NInf"
| "fmul NInf NInf = PInf"

fun fdiv :: "jsnum \<Rightarrow> jsnum \<Rightarrow> jsnum" where
  "fdiv NaN _ = NaN"
| "fdiv _ NaN = NaN"
| "fdiv (Fin a) (Fin b) =
     (if b = 0 then (if a = 0 then NaN else if 0 < a then PInf else NInf)
      else fl (a / b))"
| "fdiv (Fin a) PInf = Fin 0"
| "fdiv (Fin a) NInf = Fin 0"
| "fdiv PInf (Fin b) = (if 0 \<le> b then PInf else NInf)"
| "fdiv NInf (Fin b) = (if 0 \<le> b then NInf else PInf)"
| "fdiv PInf _ = NaN"
| "fdiv NInf _ = NaN"

text \<open>
  \<^verbatim>\<open>Math.round\<close>: the integer nearest to the argument, the upper one of two that are
  equally near. It is exact: no rounding to binary64 happens.
\<close>

fun Math_round :: "jsnum \<Rightarrow> jsnum" where
  "Math_round (Fin x) = Fin (of_int \<lfloor>x + 1 / 2\<rfloor>)"
| "Math_round n = n"

text \<open>
  \<^verbatim>\<open>Math.pow\<close> with an integer exponent (the exponent of this module is a count of
  winners). The special cases are those of ECMAScript's \<^verbatim>\<open>Number::exponentiate\<close>. For a
  finite nonzero base and a nonzero exponent ECMAScript only asks for an approximation of
  the power and leaves its last digits to the engine, and engines differ from one
  another there. That part is the parameter \<open>pw\<close>: \<open>pw x n\<close> is what the engine
  returns for the finite nonzero base \<open>x\<close> and the nonzero exponent \<open>n\<close>.
\<close>

definition Math_pow :: "(rat \<Rightarrow> int \<Rightarrow> jsnum) \<Rightarrow> jsnum \<Rightarrow> int \<Rightarrow> jsnum" where
  "Math_pow pw b n =
     (if n = 0 then Fin 1
      else case b of
        NaN \<Rightarrow> NaN
      | PInf \<Rightarrow> (if 0 < n then PInf else Fin 0)
      | NInf \<Rightarrow> (if 0 < n then (if odd n then NInf else PInf) else Fin 0)
      | Fin x \<Rightarrow>
          (if x = 0 then (if 0 < n then Fin 0 else PInf)
           else pw x n))"

text \<open>
  One engine, for running the definitions on concrete inputs: it returns the Number
  nearest to the exact power. Every engine agrees with it where the exact power is a
  Number, as for the powers of \<open>1 / 2\<close>; elsewhere an engine may return a neighbour
  of its result, which is why the general statements below are about an arbitrary
  \<open>pw\<close> and never about this one.
\<close>

definition pow_nearest :: "rat \<Rightarrow> int \<Rightarrow> jsnum" where
  "pow_nearest x n = (if 0 \<le> n then fl (x ^ nat n) else fl (1 / x ^ nat (- n)))"

section \<open>Strings and conversions\<close>

text \<open>
  \<^verbatim>\<open>BigNumber.toString()\<close> is the decimal numeral of the integer. \<open>show_nat\<close> prints a
  non-negative integer.
\<close>

definition digit_char :: "nat \<Rightarrow> char" where
  "digit_char d = ''0123456789'' ! d"

function show_nat :: "int \<Rightarrow> string" where
  "show_nat n =
     (if n < 10 then [digit_char (nat n)]
      else show_nat (n div 10) @ [digit_char (nat (n mod 10))])"
  by pat_completeness auto
termination
  by (relation "measure nat") auto

declare show_nat.simps [simp del]

definition bn_toString :: "int \<Rightarrow> string" where
  "bn_toString n = (if n < 0 then CHR ''-'' # show_nat (- n) else show_nat n)"

text \<open>
  \<^verbatim>\<open>ethers.utils.formatEther\<close> is not part of the sources; it is \<^verbatim>\<open>formatFixed(wei, 18)\<close>
  of the ethers library: the integer part, a point, and the 18 fractional digits with the
  trailing zeros removed, one digit at least; a minus sign in front of a negative amount.
\<close>

definition strip_zeros :: "string \<Rightarrow> string" where
  "strip_zeros fraction =
     (let kept = rev (dropWhile (\<lambda>c. c = CHR ''0'') (rev fraction))
      in if kept = [] then ''0'' else kept)"

definition formatEther :: "int \<Rightarrow> string" where
  "formatEther wei =
     (let v = \<bar>wei\<bar>;
          digits = show_nat (v mod 10 ^ 18);
          fraction = strip_zeros (replicate (18 - length digits) (CHR ''0'') @ digits);
          whole = show_nat (v div 10 ^ 18)
      in (if wei < 0 then ''-'' else []) @ whole @ ''.'' @ fraction)"

text \<open>
  Reading a Number from a string. \<open>scan_signed\<close> reads the longest prefix that is a
  \<^verbatim>\<open>StrDecimalLiteral\<close> of ECMAScript (sign, \<^verbatim>\<open>Infinity\<close> or digits with an optional
  fraction and exponent) and returns its value, rounded to binary64, with the rest of
  the string. A character of a string is a UTF-16 code unit below 256, so the white
  space of ECMAScript that a string can hold is tab, line feed, vertical tab, form feed,
  carriage return, space and the no-break space U+00A0; strings with higher code units
  are outside the model.
\<close>

definition is_digit :: "char \<Rightarrow> bool" where
  "is_digit c = (c \<in> set ''0123456789'')"

definition digit_val :: "char \<Rightarrow> int" where
  "digit_val c = of_char c - 48"

definition digits_val :: "string \<Rightarrow> int" where
  "digits_val ds = foldl (\<lambda>n c. 10 * n + digit_val c) 0 ds"

definition is_ws :: "char \<Rightarrow> bool" where
  "is_ws c = (c \<in> set [CHR 0x09, CHR 0x0A, CHR 0x0B, CHR 0x0C, CHR 0x0D, CHR 0x20, CHR 0xA0])"

definition pow10 :: "int \<Rightarrow> rat" where
  "pow10 e = (if 0 \<le> e then 10 ^ nat e else 1 / 10 ^ nat (- e))"

definition scan_exponent :: "string \<Rightarrow> int \<times> string" where
  "scan_exponent s =
     (case s of
        [] \<Rightarrow> (0, s)
      | c # r \<Rightarrow>
          if c = CHR ''e'' \<or> c = CHR ''E'' then
            (let (neg, r') =
                   (case r of
                      [] \<Rightarrow> (False, r)
                    | d # r'' \<Rightarrow>
                        if d = CHR ''-'' then (True, r'')
                        else if d = CHR ''+'' then (False, r'')
                        else (False, r));
                 ds = takeWhile is_digit r'
             in if ds = [] then (0, s)
                else (if neg then - digits_val ds else digits_val ds,
                      dropWhile is_digit r'))
          else (0, s))"

definition scan_unsigned :: "string \<Rightarrow> (jsnum \<times> string) option" where
  "scan_unsigned s =
     (if take 8 s = ''Infinity'' then Some (PInf, drop 8 s)
      else
        let ip = takeWhile is_digit s;
            r1 = dropWhile is_digit s;
            (fp, r2) =
              (case r1 of
                 [] \<Rightarrow> ([], r1)
               | c # r \<Rightarrow>
                   if c = CHR ''.'' then (takeWhile is_digit r, dropWhile is_digit r)
                   else ([], r1))
        in if ip = [] \<and> fp = [] then None
           else
             let (ex, r3) = scan_exponent r2
             in Some (fl (of_int (digits_val (ip @ fp)) * pow10 (ex - int (length fp))), r3))"

definition scan_signed :: "string \<Rightarrow> (jsnum \<times> string) option" where
  "scan_signed s =
     (case s of
        [] \<Rightarrow> None
      | c # r \<Rightarrow>
          if c = CHR ''+'' then scan_unsigned r
          else if c = CHR ''-'' then map_option (\<lambda>(v, rest). (fneg v, rest)) (scan_unsigned r)
          else scan_unsigned s)"

text \<open>
  \<^verbatim>\<open>StringToNumber\<close>, the conversion that the arithmetic operators apply to a string
  operand: white space is trimmed at both ends, the empty string is 0, and the whole rest
  must be a decimal literal or a hexadecimal, octal or binary integer literal; else NaN.
\<close>

definition radix_digit :: "char \<Rightarrow> int" where
  "radix_digit c =
     (if is_digit c then digit_val c
      else if c \<in> set ''abcdef'' then of_char c - 87
      else if c \<in> set ''ABCDEF'' then of_char c - 55
      else 16)"

definition radix_literal :: "int \<Rightarrow> string \<Rightarrow> jsnum" where
  "radix_literal b ds =
     (if ds \<noteq> [] \<and> list_all (\<lambda>c. radix_digit c < b) ds
      then fl (of_int (foldl (\<lambda>n c. b * n + radix_digit c) 0 ds))
      else NaN)"

definition StringToNumber :: "string \<Rightarrow> jsnum" where
  "StringToNumber s =
     (let t = rev (dropWhile is_ws (rev (dropWhile is_ws s)))
      in if t = [] then Fin 0
         else if take 2 t = ''0x'' \<or> take 2 t = ''0X'' then radix_literal 16 (drop 2 t)
         else if take 2 t = ''0o'' \<or> take 2 t = ''0O'' then radix_literal 8 (drop 2 t)
         else if take 2 t = ''0b'' \<or> take 2 t = ''0B'' then radix_literal 2 (drop 2 t)
         else case scan_signed t of
                Some (v, []) \<Rightarrow> v
              | _ \<Rightarrow> NaN)"

text \<open>
  \<^verbatim>\<open>ToNumber\<close>, applied by \<^verbatim>\<open>-\<close>, \<^verbatim>\<open>*\<close> and \<^verbatim>\<open>/\<close> to their operands. A \<^verbatim>\<open>BigNumber\<close> has no
  \<^verbatim>\<open>valueOf\<close> of its own, so it is converted through \<^verbatim>\<open>toString()\<close>.
\<close>

fun ToNumber :: "jsval \<Rightarrow> jsnum" where
  "ToNumber Undefined = NaN"
| "ToNumber (Number n) = n"
| "ToNumber (Str s) = StringToNumber s"
| "ToNumber (BigNumber n) = StringToNumber (bn_toString n)"

text \<open>
  \<^verbatim>\<open>parseFloat\<close> converts its argument to a string first, skips leading white space and
  reads the longest decimal literal at the front; NaN if there is none. For a Number
  argument the string is its shortest decimal form, which reads back as the same Number.
\<close>

fun parseFloat :: "jsval \<Rightarrow> jsnum" where
  "parseFloat Undefined = NaN"
| "parseFloat (Number n) = n"
| "parseFloat (Str s) = (case scan_signed (dropWhile is_ws s) of None \<Rightarrow> NaN | Some (v, rest) \<Rightarrow> v)"
| "parseFloat (BigNumber n) =
     (case scan_signed (dropWhile is_ws (bn_toString n)) of None \<Rightarrow> NaN | Some (v, rest) \<Rightarrow> v)"

section \<open>Odds of winning\<close>

text \<open>
  \<^verbatim>\<open>calculateOdds\<close>, lines 12-20. The balance is any value; the deposits are a Number and
  the winners an integer. The result is the string \<^verbatim>\<open>"ngmi"\<close> or a Number. The first
  argument \<open>pw\<close> is the engine's power behind \<^verbatim>\<open>Math.pow\<close>.
\<close>

definition calculateOdds :: "(rat \<Rightarrow> int \<Rightarrow> jsnum) \<Rightarrow> jsval \<Rightarrow> jsnum \<Rightarrow> int \<Rightarrow> jsval" where
  "calculateOdds pw usersPoolBalance totalPoolDeposits winners =
     (if strict_eq usersPoolBalance Undefined
         \<or> strict_eq usersPoolBalance (Number (Fin 0))
         \<or> strict_eq (Number (parseFloat usersPoolBalance)) (Number (Fin 0))
      then Str ''ngmi''
      else Number
        (fdiv (Fin 1)
           (fsub (Fin 1)
              (Math_pow pw
                 (fdiv (fsub totalPoolDeposits (ToNumber usersPoolBalance)) totalPoolDeposits)
                 winners))))"

section \<open>Credit maturation and limit\<close>

text \<open>\<^verbatim>\<open>fractionToPercentage\<close>, lines 42-44, and \<^verbatim>\<open>secondsToDaysForInput\<close>, lines 51-53.\<close>

definition fractionToPercentage :: "jsval \<Rightarrow> jsnum" where
  "fractionToPercentage fraction = Math_round (fmul (ToNumber fraction) (Fin 100))"

definition secondsToDaysForInput :: "jsval \<Rightarrow> jsnum" where
  "secondsToDaysForInput seconds =
     fdiv (Math_round
             (fmul (fdiv (fdiv (fdiv (ToNumber seconds) (Fin 60)) (Fin 60)) (Fin 24)) (Fin 10000)))
          (Fin 10000)"

text \<open>\<^verbatim>\<open>BigNumber.div\<close> truncates the quotient towards zero.\<close>

definition bn_div :: "int \<Rightarrow> int \<Rightarrow> int" where
  "bn_div a b = sgn a * sgn b * (\<bar>a\<bar> div \<bar>b\<bar>)"

text \<open>
  \<^verbatim>\<open>getCreditMaturationDaysAndLimitPercentage\<close>, lines 29-37. Both arguments are
  \<^verbatim>\<open>BigNumber\<close>s; \<^verbatim>\<open>div\<close> is only called with a positive divisor.
\<close>

definition getCreditMaturationDaysAndLimitPercentage :: "int \<Rightarrow> int \<Rightarrow> jsnum \<times> jsnum" where
  "getCreditMaturationDaysAndLimitPercentage ticketCreditRateMantissa ticketCreditLimitMantissa =
     (let creditLimitMantissa = formatEther ticketCreditLimitMantissa;
          creditLimitPercentage = fractionToPercentage (Str creditLimitMantissa);
          creditMaturationInSeconds =
            (if 0 < ticketCreditRateMantissa
             then BigNumber (bn_div ticketCreditLimitMantissa ticketCreditRateMantissa)
             else Number (Fin 0));
          creditMaturationInDays = secondsToDaysForInput creditMaturationInSeconds
      in (creditMaturationInDays, creditLimitPercentage))"

text \<open>
  The pair as the specification words it, for comparison with the function: the
  maturation in seconds divided by 86400, times 10000, rounded, divided by 10000, in
  exact arithmetic (\<open>claimed_days\<close>) and in Number arithmetic (\<open>claimed_days_double\<close>).
\<close>

definition claimed_days :: "int \<Rightarrow> int \<Rightarrow> rat" where
  "claimed_days rate limit =
     of_int (round (of_int (bn_div limit rate) / 86400 * 10000 :: rat)) / 10000"

definition claimed_days_double :: "int \<Rightarrow> int \<Rightarrow> jsnum" where
  "claimed_days_double rate limit =
     fdiv (Math_round (fmul (fdiv (fl (of_int (bn_div limit rate))) (Fin 86400)) (Fin 10000)))
          (Fin 10000)"

section \<open>Documentation links\<close>

text \<open>\<^verbatim>\<open>poolTogetherUILinks\<close>, lines 61-74: both branches are written out as in the source.\<close>

definition poolTogetherUILinks :: "jsval \<Rightarrow> string \<times> string" where
  "poolTogetherUILinks chainID =
     (if strict_eq chainID (Number (Fin 4)) then
        (''https://community.pooltogether.com/pools/rinkeby/0x60bc094cb0c966e60ed3be0549e92f3bc572e9f8/home'',
         ''https://community.pooltogether.com/pools/rinkeby/0x60bc094cb0c966e60ed3be0549e92f3bc572e9f8/manage#stats'')
      else
        (''https://community.pooltogether.com/pools/rinkeby/0x60bc094cb0c966e60ed3be0549e92f3bc572e9f8/home'',
         ''https://community.pooltogether.com/pools/rinkeby/0x60bc094cb0c966e60ed3be0549e92f3bc572e9f8/manage#stats''))"

section \<open>Event listeners\<close>

text \<open>
  The listener helpers only produce effects: calls of the event-listener facility, of the
  caller's callback, of \<^verbatim>\<open>setTimeout\<close> and of \<^verbatim>\<open>console.log\<close>. A run of a helper is the
  list of the effects it performs, in order, with its outcome: \<open>Inr ()\<close> when it
  returns, \<open>Inl e\<close> when the exception \<open>e\<close> leaves it.
\<close>

type_synonym provider = string
type_synonym address = string

datatype js_error = TypeError | Thrown string

text \<open>
  The caller-supplied \<^verbatim>\<open>eventHandler\<close> is opaque: it has an identity and, when it is
  invoked, it either returns or throws.
\<close>

datatype callback = Callback (cb_id: string) (cb_throws: "js_error option")

datatype timer_action = WindowLocationReload

text \<open>
  \<^verbatim>\<open>handlerFunc\<close> is a closure over \<^verbatim>\<open>provider\<close>, \<^verbatim>\<open>topicString\<close>, \<^verbatim>\<open>contractAddress\<close> and
  \<^verbatim>\<open>eventHandler\<close>; \<open>HandlerFunc\<close> records the captured values.
\<close>

datatype handler = HandlerFunc provider string address callback

datatype effect =
    AddEthersEventListener provider string address handler
  | RemoveEthersEventListener provider string address
  | CallEventHandler callback
  | SetTimeout timer_action nat
  | ConsoleLog string

type_synonym run = "effect list \<times> (js_error + unit)"

text \<open>
  The body of \<^verbatim>\<open>handlerFunc\<close> (lines 88-92, 101-105 and 125-129, the same three
  statements each time). An exception thrown by \<^verbatim>\<open>eventHandler()\<close> is not caught, so the
  \<^verbatim>\<open>setTimeout\<close> statement after it is not reached.
\<close>

fun handlerFunc :: "handler \<Rightarrow> run" where
  "handlerFunc (HandlerFunc provider topicString contractAddress eventHandler) =
     (case cb_throws eventHandler of
        None \<Rightarrow>
          ([RemoveEthersEventListener provider topicString contractAddress,
            CallEventHandler eventHandler,
            SetTimeout WindowLocationReload 15000], Inr ())
      | Some e \<Rightarrow>
          ([RemoveEthersEventListener provider topicString contractAddress,
            CallEventHandler eventHandler], Inl e))"

text \<open>
  The address table \<^verbatim>\<open>addresses\<close> is imported from \<^verbatim>\<open>../constants\<close> and is a parameter
  here: a partial map from network ids to entries that hold the two PoolTogether
  addresses. Reading \<^verbatim>\<open>addresses[networkID].POOL_TOGETHER\<close> for an absent id is a property
  access on \<^verbatim>\<open>undefined\<close>, which throws a TypeError.
\<close>

record pool_together =
  PRIZE_STRATEGY_ADDRESS :: address
  PRIZE_POOL_ADDRESS :: address

record network_addresses =
  POOL_TOGETHER :: pool_together

type_synonym 'n address_table = "'n \<rightharpoonup> network_addresses"

definition listenAndHandleRNGCompleteEvent ::
  "'n address_table \<Rightarrow> provider \<Rightarrow> 'n \<Rightarrow> callback \<Rightarrow> run" where
  "listenAndHandleRNGCompleteEvent addresses provider networkID eventHandler =
     (case addresses networkID of
        None \<Rightarrow> ([], Inl TypeError)
      | Some entry \<Rightarrow>
          (let contractAddress = PRIZE_STRATEGY_ADDRESS (POOL_TOGETHER entry);
               topicString = ''RandomNumberCompleted(uint32,uint256)'';
               h = HandlerFunc provider topicString contractAddress eventHandler
           in ([AddEthersEventListener provider topicString contractAddress h], Inr ())))"

definition listenAndHandleDepositEvent ::
  "'n address_table \<Rightarrow> provider \<Rightarrow> 'n \<Rightarrow> callback \<Rightarrow> run" where
  "listenAndHandleDepositEvent addresses provider networkID eventHandler =
     (case addresses networkID of
        None \<Rightarrow> ([], Inl TypeError)
      | Some entry \<Rightarrow>
          (let contractAddress = PRIZE_POOL_ADDRESS (POOL_TOGETHER entry);
               topicString = ''Deposited(address,address,address,uint256,address)'';
               h = HandlerFunc provider topicString contractAddress eventHandler
           in ([AddEthersEventListener provider topicString contractAddress h], Inr ())))"

definition listenAndHandleRNGStartEvent ::
  "'n address_table \<Rightarrow> provider \<Rightarrow> 'n \<Rightarrow> jsnum \<Rightarrow> callback \<Rightarrow> run" where
  "listenAndHandleRNGStartEvent addresses provider networkID secondsLeft eventHandler =
     (case addresses networkID of
        None \<Rightarrow> ([], Inl TypeError)
      | Some entry \<Rightarrow>
          (let contractAddress = PRIZE_STRATEGY_ADDRESS (POOL_TOGETHER entry);
               topicString = ''RandomNumberRequested(uint32,address)''
           in if js_le secondsLeft (Fin 0) then
                (let h = HandlerFunc provider topicString contractAddress eventHandler
                 in ([ConsoleLog ''start listener'',
                      AddEthersEventListener provider topicString contractAddress h], Inr ()))
              else
                ([ConsoleLog ''end listener'',
                  RemoveEthersEventListener provider topicString contractAddress], Inr ())))"

text \<open>Counting the calls of the facility in a run.\<close>

fun is_add :: "effect \<Rightarrow> bool" where
  "is_add (AddEthersEventListener _ _ _ _) = True"
| "is_add _ = False"

fun is_remove :: "effect \<Rightarrow> bool" where
  "is_remove (RemoveEthersEventListener _ _ _) = True"
| "is_remove _ = False"

fun is_timer :: "effect \<Rightarrow> bool" where
  "is_timer (SetTimeout _ _) = True"
| "is_timer _ = False"

text \<open>
  Modelled from the spec: the event-listener facility of \<^verbatim>\<open>./ethersEventListener\<close> is not
  part of the sources. The spec describes it as a registry of listeners per provider,
  topic and address, with an add operation and a remove operation that is idempotent.
  The registry is the list of the registered listeners; removing drops every listener of
  the pair.
\<close>

type_synonym registry = "(provider \<times> string \<times> address \<times> handler) list"

fun apply_effect :: "registry \<Rightarrow> effect \<Rightarrow> registry" where
  "apply_effect reg (AddEthersEventListener p t a h) = reg @ [(p, t, a, h)]"
| "apply_effect reg (RemoveEthersEventListener p t a) =
     filter (\<lambda>(p', t', a', h). \<not> (p' = p \<and> t' = t \<and> a' = a)) reg"
| "apply_effect reg _ = reg"

definition listeners_of :: "registry \<Rightarrow> provider \<Rightarrow> string \<Rightarrow> address \<Rightarrow> handler list" where
  "listeners_of reg p t a =
     map (\<lambda>(p', t', a', h). h) (filter (\<lambda>(p', t', a', h). p' = p \<and> t' = t \<and> a' = a) reg)"

text \<open>The listeners a run registers: the arguments of its add calls, in order.\<close>

fun registered :: "effect list \<Rightarrow> (provider \<times> string \<times> address \<times> handler) list" where
  "registered [] = []"
| "registered (AddEthersEventListener p t a h # es) = (p, t, a, h) # registered es"
| "registered (_ # es) = registered es"

text \<open>
  A table with one network, for evaluating the helpers: the prize-strategy address is the
  one of the comments at lines 84 and 120, the prize-pool address the one of the links.
\<close>

definition rinkeby_entry :: network_addresses where
  "rinkeby_entry =
     \<lparr>POOL_TOGETHER =
        \<lparr>PRIZE_STRATEGY_ADDRESS = ''0xeeb552c4d5e155e50ee3f7402ed379bf72e36f23'',
         PRIZE_POOL_ADDRESS = ''0x60bc094cb0c966e60ed3be0549e92f3bc572e9f8''\<rparr>\<rparr>"

definition rinkeby_only :: "int address_table" where
  "rinkeby_only = Map.empty(4 \<mapsto> rinkeby_entry)"

section \<open>Properties of the rounding\<close>

lemma pow2_powi: "pow2 e = 2 powi e"
  by (simp add: pow2_def power_int_def inverse_eq_divide power_one_over)

lemma pow2_pos: "0 < pow2 e"
  by (simp add: pow2_powi)

lemma pow2_add: "pow2 (a + b) = pow2 a * pow2 b"
  by (simp add: pow2_powi power_int_add)

lemma pow2_diff: "pow2 (a - b) = pow2 a / pow2 b"
  by (simp add: pow2_powi power_int_diff)

lemma pow2_mono: "a \<le> b \<Longrightarrow> pow2 a \<le> pow2 b"
  by (simp add: pow2_powi power_int_increasing)

lemma pow2_nat: "0 \<le> e \<Longrightarrow> pow2 e = of_int (2 ^ nat e)"
  by (simp add: pow2_def)

lemma bitlen_pow2_bounds:
  assumes "0 < p"
  shows "pow2 (bitlen p - 1) \<le> of_int p" and "of_int p < pow2 (bitlen p)"
proof -
  from assms have b: "1 \<le> bitlen p"
    by (simp add: bitlen_alt_def)
  from bitlen_bounds [OF assms]
  have lo: "2 ^ nat (bitlen p - 1) \<le> p" and hi: "p < 2 ^ nat (bitlen p)"
    by simp_all
  from lo b show "pow2 (bitlen p - 1) \<le> of_int p"
    by (simp add: pow2_nat del: of_int_power)
  from hi b show "of_int p < pow2 (bitlen p)"
    by (simp add: pow2_nat del: of_int_power)
qed

lemma floor_log2_bounds:
  assumes "0 < x"
  shows "pow2 (floor_log2 x) \<le> x" and "x < pow2 (floor_log2 x + 1)"
proof -
  obtain p q where pq: "quotient_of x = (p, q)"
    by force
  have q: "0 < q"
    using quotient_of_denom_pos [OF pq] .
  have x: "x = of_int p / of_int q"
    using quotient_of_div [OF pq] .
  have p: "0 < p"
    using assms q by (simp add: x zero_less_divide_iff)
  define k where "k = bitlen p - bitlen q"
  have fl2: "floor_log2 x = (if pow2 k \<le> x then k else k - 1)"
    by (simp add: floor_log2_def pq k_def Let_def)
  have qpos: "(0::rat) < of_int q"
    using q by simp
  have "x * of_int q < pow2 (bitlen p)"
    using bitlen_pow2_bounds(2) [OF p] qpos by (simp add: x)
  also have "pow2 (bitlen p) = pow2 (k + 1) * pow2 (bitlen q - 1)"
    by (simp add: k_def pow2_add [symmetric])
  also have "\<dots> \<le> pow2 (k + 1) * of_int q"
    using bitlen_pow2_bounds(1) [OF q] pow2_pos [of "k + 1"] by simp
  finally have upper: "x < pow2 (k + 1)"
    using qpos by simp
  have "pow2 (k - 1) * of_int q < pow2 (k - 1) * pow2 (bitlen q)"
    using bitlen_pow2_bounds(2) [OF q] pow2_pos [of "k - 1"] by simp
  also have "\<dots> = pow2 (bitlen p - 1)"
    by (simp add: k_def pow2_add [symmetric])
  also have "\<dots> \<le> x * of_int q"
    using bitlen_pow2_bounds(1) [OF p] qpos by (simp add: x)
  finally have lower: "pow2 (k - 1) < x"
    using qpos by simp
  show "pow2 (floor_log2 x) \<le> x"
    using lower by (simp add: fl2)
  show "x < pow2 (floor_log2 x + 1)"
    using upper by (auto simp: fl2)
qed

lemma floor_log2_mono:
  assumes "0 < x" "x \<le> y"
  shows "floor_log2 x \<le> floor_log2 y"
proof (rule ccontr)
  assume "\<not> floor_log2 x \<le> floor_log2 y"
  then have "floor_log2 y + 1 \<le> floor_log2 x"
    by simp
  then have "pow2 (floor_log2 y + 1) \<le> pow2 (floor_log2 x)"
    by (rule pow2_mono)
  also have "\<dots> \<le> x"
    using floor_log2_bounds(1) [OF assms(1)] .
  also have "\<dots> \<le> y"
    by fact
  finally show False
    using floor_log2_bounds(2) [of y] assms by simp
qed

lemma round_half_even_floor: "\<lfloor>x\<rfloor> \<le> round_half_even x"
  by (simp add: round_half_even_def Let_def)

lemma round_half_even_ge:
  assumes "of_int n \<le> x"
  shows "n \<le> round_half_even x"
proof -
  from assms have "n \<le> \<lfloor>x\<rfloor>"
    by (simp add: le_floor_iff)
  with round_half_even_floor [of x] show ?thesis
    by simp
qed

lemma round_half_even_le:
  assumes "x \<le> of_int n"
  shows "round_half_even x \<le> n"
proof (cases "x = of_int n")
  case True
  then show ?thesis
    by (simp add: round_half_even_def)
next
  case False
  with assms have "x < of_int n"
    by simp
  then have "\<lfloor>x\<rfloor> < n"
    by (simp add: floor_less_iff)
  then show ?thesis
    by (simp add: round_half_even_def Let_def)
qed


lemma bitlen_mono: "a \<le> b \<Longrightarrow> bitlen a \<le> bitlen b"
  by (simp add: bitlen_def floorlog_mono)

lemma fl_zero: "fl 0 = Fin 0"
  by (simp add: fl_def)

lemma fl_one: "fl 1 = Fin 1"
  by code_simp

lemma floor_log2_one: "floor_log2 1 = 0"
  by code_simp

lemma fl_between:
  assumes g: "fl g = Fin g" and x0: "0 \<le> x" and xg: "x \<le> g"
  shows "\<exists>y. fl x = Fin y \<and> 0 \<le> y \<and> y \<le> g"
proof (cases "x = 0")
  case True
  with x0 xg show ?thesis
    by (simp add: fl_zero)
next
  case False
  with x0 have xpos: "0 < x"
    by simp
  with xg have gpos: "0 < g"
    by simp
  define eg where "eg = max (floor_log2 \<bar>g\<bar> - 52) (- 1074)"
  define mg where "mg = round_half_even (g / pow2 eg)"
  define ex where "ex = max (floor_log2 \<bar>x\<bar> - 52) (- 1074)"
  define mx where "mx = round_half_even (x / pow2 ex)"
  have flg: "fl g = (if 1024 < bitlen \<bar>mg\<bar> + eg then PInf else Fin (of_int mg * pow2 eg))"
    using gpos by (simp add: fl_def eg_def mg_def Let_def)
  with g have g_fits: "\<not> 1024 < bitlen \<bar>mg\<bar> + eg" and g_grid: "of_int mg * pow2 eg = g"
    by (auto split: if_splits)
  have flx: "fl x = (if 1024 < bitlen \<bar>mx\<bar> + ex then PInf else Fin (of_int mx * pow2 ex))"
    using xpos by (simp add: fl_def ex_def mx_def Let_def)
  have "floor_log2 \<bar>x\<bar> \<le> floor_log2 \<bar>g\<bar>"
    using xpos xg gpos by (simp add: floor_log2_mono)
  then have e_le: "ex \<le> eg"
    by (simp add: ex_def eg_def)
  define k where "k = nat (eg - ex)"
  have k: "eg = ex + int k"
    using e_le by (simp add: k_def)
  have mgpos: "0 < mg"
  proof (rule ccontr)
    assume "\<not> 0 < mg"
    then have "of_int mg * pow2 eg \<le> 0"
      using pow2_pos [of eg] by (simp add: mult_le_0_iff)
    with g_grid gpos show False
      by simp
  qed
  have "g / pow2 ex = of_int mg * (pow2 eg / pow2 ex)"
    using g_grid by (simp add: field_simps)
  also have "pow2 eg / pow2 ex = pow2 (int k)"
    by (simp add: k pow2_add) (simp add: pow2_powi)
  also have "pow2 (int k) = of_int (2 ^ k)"
    by (simp add: pow2_nat)
  finally have G: "g / pow2 ex = of_int (mg * 2 ^ k)"
    by simp
  have "x / pow2 ex \<le> g / pow2 ex"
    using xg pow2_pos [of ex] by (simp add: divide_right_mono)
  then have mx_le: "mx \<le> mg * 2 ^ k"
    unfolding mx_def G by (rule round_half_even_le)
  have "of_int 0 \<le> x / pow2 ex"
    using x0 pow2_pos [of ex] by simp
  then have mx_ge: "0 \<le> mx"
    unfolding mx_def by (rule round_half_even_ge)
  have "bitlen \<bar>mx\<bar> \<le> bitlen (mg * 2 ^ k)"
    using mx_le mx_ge by (simp add: bitlen_mono)
  also have "\<dots> = bitlen mg + int k"
    using mgpos by simp
  finally have "bitlen \<bar>mx\<bar> + ex \<le> bitlen \<bar>mg\<bar> + eg"
    using mgpos by (simp add: k)
  with g_fits have x_fits: "\<not> 1024 < bitlen \<bar>mx\<bar> + ex"
    by simp
  have "of_int mx * pow2 ex \<le> of_int (mg * 2 ^ k) * pow2 ex"
    using mx_le pow2_pos [of ex] by (simp add: mult_right_mono del: of_int_mult)
  also have "\<dots> = g"
    using G pow2_pos [of ex] by (simp add: field_simps)
  finally have y_le: "of_int mx * pow2 ex \<le> g" .
  have y_ge: "0 \<le> of_int mx * pow2 ex"
    using mx_ge pow2_pos [of ex] by simp
  from x_fits y_le y_ge show ?thesis
    by (simp add: flx)
qed

lemma fl_ge_one:
  assumes "1 \<le> x"
  shows "fl x = PInf \<or> (\<exists>y. fl x = Fin y \<and> 1 \<le> y)"
proof -
  from assms have xpos: "0 < x"
    by simp
  define L where "L = floor_log2 x"
  have L0: "0 \<le> L"
    using floor_log2_mono [of 1 x] assms by (simp add: L_def floor_log2_one)
  define e where "e = L - 52"
  define m where "m = round_half_even (x / pow2 e)"
  have flx: "fl x = (if 1024 < bitlen \<bar>m\<bar> + e then PInf else Fin (of_int m * pow2 e))"
    using xpos L0 by (simp add: fl_def e_def m_def L_def Let_def max_def)
  have "pow2 L \<le> x"
    unfolding L_def using floor_log2_bounds(1) [OF xpos] .
  then have "pow2 L / pow2 e \<le> x / pow2 e"
    using pow2_pos [of e] by (simp add: divide_right_mono)
  moreover have "pow2 L / pow2 e = of_int (2 ^ 52)"
    by (simp add: pow2_diff [symmetric] e_def pow2_nat)
  ultimately have "of_int (2 ^ 52) \<le> x / pow2 e"
    by simp
  then have m_ge: "2 ^ 52 \<le> m"
    unfolding m_def by (rule round_half_even_ge)
  have "pow2 L = of_int (2 ^ 52) * pow2 e"
    by (simp add: e_def pow2_diff pow2_nat)
  also have "\<dots> \<le> of_int m * pow2 e"
    using m_ge pow2_pos [of e] by (simp add: mult_right_mono del: of_int_power)
  finally have "pow2 L \<le> of_int m * pow2 e" .
  moreover have "pow2 0 \<le> pow2 L"
    using L0 by (rule pow2_mono)
  ultimately have "1 \<le> of_int m * pow2 e"
    by (simp add: pow2_def)
  then show ?thesis
    by (simp add: flx)
qed

section \<open>Printing and reading numbers\<close>

lemma digit_cases:
  assumes "d < (10::nat)"
  obtains "d = 0" | "d = 1" | "d = 2" | "d = 3" | "d = 4" | "d = 5" | "d = 6" | "d = 7" | "d = 8" | "d = 9"
proof -
  from assms have "d = 0 \<or> d = 1 \<or> d = 2 \<or> d = 3 \<or> d = 4 \<or> d = 5 \<or> d = 6 \<or> d = 7 \<or> d = 8 \<or> d = 9"
    by presburger
  with that show thesis
    by blast
qed

lemma is_digit_digit_char: "d < 10 \<Longrightarrow> is_digit (digit_char d)"
  by (erule digit_cases) (simp_all add: digit_char_def is_digit_def)

lemma digit_val_digit_char: "d < 10 \<Longrightarrow> digit_val (digit_char d) = int d"
  by (erule digit_cases) (simp_all add: digit_char_def digit_val_def)

lemma is_digit_not_special:
  assumes "is_digit c"
  shows "\<not> is_ws c" "c \<noteq> CHR ''.''" "c \<noteq> CHR ''-''" "c \<noteq> CHR ''+''" "c \<noteq> CHR ''I''"
    "c \<noteq> CHR ''x''" "c \<noteq> CHR ''X''" "c \<noteq> CHR ''o''" "c \<noteq> CHR ''O''" "c \<noteq> CHR ''b''" "c \<noteq> CHR ''B''"
    "c \<noteq> CHR ''e''" "c \<noteq> CHR ''E''"
  using assms by (auto simp: is_digit_def is_ws_def)

lemma show_nat_digits: "list_all is_digit (show_nat n)"
proof (induction n rule: show_nat.induct)
  case (1 n)
  show ?case
  proof (cases "n < 10")
    case True
    then have "nat n < 10"
      by simp
    then show ?thesis
      using True by (subst show_nat.simps) (simp add: is_digit_digit_char)
  next
    case False
    have "nat (n mod 10) < 10"
      by (simp add: nat_less_iff)
    with False "1.IH" show ?thesis
      by (subst show_nat.simps) (simp add: is_digit_digit_char)
  qed
qed

lemma show_nat_nonempty: "show_nat n \<noteq> []"
  by (subst show_nat.simps) simp

lemma digits_val_snoc: "digits_val (ds @ [c]) = 10 * digits_val ds + digit_val c"
  by (simp add: digits_val_def)

lemma digits_val_append:
  "digits_val (ds @ es) = digits_val ds * 10 ^ length es + digits_val es"
proof (induction es rule: rev_induct)
  case Nil
  show ?case
    by (simp add: digits_val_def)
next
  case (snoc c es)
  have "digits_val (ds @ es @ [c]) = 10 * digits_val (ds @ es) + digit_val c"
    using digits_val_snoc [of "ds @ es" c] by simp
  then show ?case
    by (simp add: snoc.IH digits_val_snoc algebra_simps)
qed

lemma digits_val_show_nat: "0 \<le> n \<Longrightarrow> digits_val (show_nat n) = n"
proof (induction n rule: show_nat.induct)
  case (1 n)
  show ?case
  proof (cases "n < 10")
    case True
    with "1.prems" have "nat n < 10"
      by simp
    with True "1.prems" show ?thesis
      by (subst show_nat.simps) (simp add: digits_val_def digit_val_digit_char)
  next
    case False
    have m: "nat (n mod 10) < 10"
      by (simp add: nat_less_iff)
    from False "1.prems" have "digits_val (show_nat (n div 10)) = n div 10"
      by (intro "1.IH") simp_all
    with False show ?thesis
      by (subst show_nat.simps) (simp add: digits_val_snoc digit_val_digit_char [OF m])
  qed
qed

lemma length_show_nat:
  "0 \<le> n \<Longrightarrow> n < 10 ^ k \<Longrightarrow> 0 < k \<Longrightarrow> length (show_nat n) \<le> k"
proof (induction n arbitrary: k rule: show_nat.induct)
  case (1 n)
  show ?case
  proof (cases "n < 10")
    case True
    with "1.prems" show ?thesis
      by (subst show_nat.simps) simp
  next
    case False
    obtain j where k: "k = Suc j"
      using "1.prems"(3) by (cases k) simp_all
    have j: "0 < j"
    proof (rule ccontr)
      assume "\<not> 0 < j"
      with k "1.prems"(2) False show False
        by simp
    qed
    have "n div 10 < 10 ^ j"
      using "1.prems"(2) unfolding k by simp
    with "1.prems"(1) False j have "length (show_nat (n div 10)) \<le> j"
      by (intro "1.IH") simp_all
    with False show ?thesis
      by (subst show_nat.simps) (simp add: k)
  qed
qed


lemma round_half_even_neg: "round_half_even (- x) = - round_half_even x"
proof (cases "x = of_int \<lfloor>x\<rfloor>")
  case True
  then obtain n where "x = of_int n"
    by blast
  then show ?thesis
    by (simp add: round_half_even_def flip: of_int_minus)
next
  case False
  then have c: "\<lceil>x\<rceil> = \<lfloor>x\<rfloor> + 1"
    by (simp add: ceiling_altdef)
  have f: "\<lfloor>- x\<rfloor> = - \<lfloor>x\<rfloor> - 1"
    by (simp add: floor_minus c)
  show ?thesis
    unfolding round_half_even_def Let_def f
    by (auto simp: algebra_simps)
qed

lemma fl_neg: "fl (- x) = fneg (fl x)"
proof (cases "x = 0")
  case True
  then show ?thesis
    by (simp add: fl_zero)
next
  case False
  define e where "e = max (floor_log2 \<bar>x\<bar> - 52) (- 1074)"
  define m where "m = round_half_even (x / pow2 e)"
  have "round_half_even (- x / pow2 e) = - m"
    using round_half_even_neg [of "x / pow2 e"] by (simp add: m_def)
  with False show ?thesis
    by (simp add: fl_def Let_def e_def [symmetric] m_def [symmetric])
qed

lemma dropWhile_hd_id: "xs \<noteq> [] \<Longrightarrow> \<not> P (hd xs) \<Longrightarrow> dropWhile P xs = xs"
  by (cases xs) simp_all

lemma trim_id:
  assumes "s \<noteq> []" "\<not> is_ws (hd s)" "\<not> is_ws (last s)"
  shows "rev (dropWhile is_ws (rev (dropWhile is_ws s))) = s"
proof -
  have "dropWhile is_ws s = s"
    using assms by (simp add: dropWhile_hd_id)
  moreover have "dropWhile is_ws (rev s) = rev s"
    using assms by (simp add: dropWhile_hd_id hd_rev)
  ultimately show ?thesis
    by simp
qed

lemma scan_exponent_Nil: "scan_exponent [] = (0, [])"
  by (simp add: scan_exponent_def)

lemma not_Infinity:
  assumes "s \<noteq> []" "is_digit (hd s)"
  shows "take 8 s \<noteq> ''Infinity''"
proof -
  obtain c cs where s: "s = c # cs"
    using assms(1) by (cases s) simp_all
  with assms(2) have "c \<noteq> CHR ''I''"
    by (simp add: is_digit_not_special)
  then show ?thesis
    by (simp add: s)
qed

lemma scan_unsigned_integer:
  assumes "list_all is_digit ds" "ds \<noteq> []"
  shows "scan_unsigned ds = Some (fl (of_int (digits_val ds)), [])"
proof -
  have d: "\<And>c. c \<in> set ds \<Longrightarrow> is_digit c"
    using assms(1) by (simp add: list_all_iff)
  have inf: "take 8 ds \<noteq> ''Infinity''"
    using assms d by (intro not_Infinity) simp_all
  have tw: "takeWhile is_digit ds = ds" and dw: "dropWhile is_digit ds = []"
    using d by (simp_all add: takeWhile_eq_all_conv)
  show ?thesis
    using assms(2) inf
    by (simp add: scan_unsigned_def Let_def tw dw scan_exponent_Nil pow10_def del: take_Cons_numeral)
qed

lemma scan_unsigned_decimal:
  assumes "list_all is_digit ds" "ds \<noteq> []" "list_all is_digit fs"
  shows "scan_unsigned (ds @ CHR ''.'' # fs)
           = Some (fl (of_int (digits_val (ds @ fs)) * pow10 (- int (length fs))), [])"
proof -
  have d: "\<And>c. c \<in> set ds \<Longrightarrow> is_digit c" and f: "\<And>c. c \<in> set fs \<Longrightarrow> is_digit c"
    using assms by (simp_all add: list_all_iff)
  have inf: "take 8 (ds @ CHR ''.'' # fs) \<noteq> ''Infinity''"
    using assms(2) d by (intro not_Infinity) (simp_all add: hd_append)
  have dot: "\<not> is_digit CHR ''.''"
    by (simp add: is_digit_def)
  have tw: "takeWhile is_digit (ds @ CHR ''.'' # fs) = ds"
    using d dot by (simp add: takeWhile_append2)
  have dw: "dropWhile is_digit (ds @ CHR ''.'' # fs) = CHR ''.'' # fs"
    using d dot by (simp add: dropWhile_append2)
  have tf: "takeWhile is_digit fs = fs" and df: "dropWhile is_digit fs = []"
    using f by (simp_all add: takeWhile_eq_all_conv)
  show ?thesis
    using assms(2) inf
    unfolding scan_unsigned_def Let_def tw dw
    by (simp add: tf df scan_exponent_Nil del: take_Cons_numeral)
qed


lemma no_radix_prefix:
  assumes "list_all is_digit ds" "ds \<noteq> []" "rest = [] \<or> hd rest = CHR ''.''"
  shows "take 2 (ds @ rest) \<noteq> ''0x''" "take 2 (ds @ rest) \<noteq> ''0X''"
    "take 2 (ds @ rest) \<noteq> ''0o''" "take 2 (ds @ rest) \<noteq> ''0O''"
    "take 2 (ds @ rest) \<noteq> ''0b''" "take 2 (ds @ rest) \<noteq> ''0B''"
proof -
  obtain c cs where ds: "ds = c # cs"
    using assms(2) by (cases ds) simp_all
  have second: "cs @ rest = [] \<or> hd (cs @ rest) = CHR ''.'' \<or> is_digit (hd (cs @ rest))"
    using assms(1,3) by (cases cs) (auto simp: ds)
  have t: "take 2 (ds @ rest) = c # take 1 (cs @ rest)"
    by (simp add: ds numeral_2_eq_2)
  have "take 1 (cs @ rest) \<noteq> [x]"
    if "x \<noteq> CHR ''.''" "\<not> is_digit x" for x
    using second that by (cases "cs @ rest") auto
  then show "take 2 (ds @ rest) \<noteq> ''0x''" "take 2 (ds @ rest) \<noteq> ''0X''"
    "take 2 (ds @ rest) \<noteq> ''0o''" "take 2 (ds @ rest) \<noteq> ''0O''"
    "take 2 (ds @ rest) \<noteq> ''0b''" "take 2 (ds @ rest) \<noteq> ''0B''"
    unfolding t by (simp_all add: is_digit_def)
qed

lemma StringToNumber_scan:
  assumes "s \<noteq> []" "\<not> is_ws (hd s)" "\<not> is_ws (last s)"
    and "take 2 s \<noteq> ''0x''" "take 2 s \<noteq> ''0X''" "take 2 s \<noteq> ''0o''"
      "take 2 s \<noteq> ''0O''" "take 2 s \<noteq> ''0b''" "take 2 s \<noteq> ''0B''"
    and "scan_signed s = Some (v, [])"
  shows "StringToNumber s = v"
  using assms unfolding StringToNumber_def trim_id [OF assms(1-3)] Let_def
  by simp

lemma scan_signed_digit:
  assumes "s \<noteq> []" "is_digit (hd s)"
  shows "scan_signed s = scan_unsigned s"
proof -
  obtain c cs where s: "s = c # cs"
    using assms(1) by (cases s) simp_all
  with assms(2) have "c \<noteq> CHR ''+''" "c \<noteq> CHR ''-''"
    by (simp_all add: is_digit_not_special)
  then show ?thesis
    by (simp add: scan_signed_def s)
qed

lemma StringToNumber_literal:
  assumes ds: "list_all is_digit ds" "ds \<noteq> []"
    and rest: "rest = [] \<or> (hd rest = CHR ''.'' \<and> is_digit (last rest))"
    and scan: "scan_unsigned (ds @ rest) = Some (v, [])"
  shows "StringToNumber (ds @ rest) = v" and "StringToNumber (CHR ''-'' # ds @ rest) = fneg v"
proof -
  have hd_digit: "is_digit (hd (ds @ rest))"
    using ds by (cases ds) simp_all
  have last_digit: "is_digit (last (ds @ rest))"
    using ds rest by (cases "rest = []") (auto simp: list_all_iff)
  have ne: "ds @ rest \<noteq> []"
    using ds by simp
  have rest': "rest = [] \<or> hd rest = CHR ''.''"
    using rest by blast
  show "StringToNumber (ds @ rest) = v"
    using hd_digit last_digit scan
    by (intro StringToNumber_scan [OF ne] no_radix_prefix [OF ds rest'])
       (simp_all add: is_digit_not_special scan_signed_digit [OF ne])
  have minus: "\<not> is_ws CHR ''-''"
    by (simp add: is_ws_def)
  have "scan_signed (CHR ''-'' # ds @ rest) = Some (fneg v, [])"
    using scan by (simp add: scan_signed_def)
  moreover have "last (CHR ''-'' # ds @ rest) = last (ds @ rest)"
    using ds(2) by simp
  ultimately show "StringToNumber (CHR ''-'' # ds @ rest) = fneg v"
    using last_digit minus
    by (intro StringToNumber_scan) (simp_all add: is_digit_not_special numeral_2_eq_2)
qed

lemma fneg_fneg: "fneg (fneg x) = x"
  by (cases x) simp_all

lemma ToNumber_BigNumber: "ToNumber (BigNumber n) = fl (of_int n)"
proof (cases "n < 0")
  case False
  then have "digits_val (show_nat n) = n"
    by (simp add: digits_val_show_nat)
  with StringToNumber_literal(1) [OF show_nat_digits show_nat_nonempty, of "[]" n]
    scan_unsigned_integer [OF show_nat_digits show_nat_nonempty, of n] False
  show ?thesis
    by (simp add: bn_toString_def)
next
  case True
  then have "digits_val (show_nat (- n)) = - n"
    by (simp add: digits_val_show_nat)
  with StringToNumber_literal(2) [OF show_nat_digits show_nat_nonempty, of "[]" "- n"]
    scan_unsigned_integer [OF show_nat_digits show_nat_nonempty, of "- n"] True
    fl_neg [of "of_int n"]
  show ?thesis
    by (simp add: bn_toString_def fneg_fneg)
qed


lemma digits_val_zeros: "\<forall>c\<in>set zs. c = CHR ''0'' \<Longrightarrow> digits_val zs = 0"
proof (induction zs rule: rev_induct)
  case Nil
  show ?case
    by (simp add: digits_val_def)
next
  case (snoc c zs)
  then show ?case
    by (simp add: digits_val_snoc digit_val_def)
qed

lemma decimal_value:
  "of_int (digits_val (ds @ fs)) * pow10 (- int (length fs))
     = of_int (digits_val ds) + of_int (digits_val fs) / 10 ^ length fs"
  by (simp add: digits_val_append pow10_def field_simps)

lemma strip_zeros_digits:
  assumes "list_all is_digit pad"
  shows "list_all is_digit (strip_zeros pad)" and "strip_zeros pad \<noteq> []"
proof -
  define kept where "kept = rev (dropWhile (\<lambda>c. c = CHR ''0'') (rev pad))"
  have "set kept \<subseteq> set pad"
    using set_dropWhileD [of _ "\<lambda>c. c = CHR ''0''" "rev pad"] by (auto simp: kept_def)
  with assms have kept: "list_all is_digit kept"
    by (auto simp: list_all_iff)
  have zero: "is_digit CHR ''0''"
    by (simp add: is_digit_def)
  have strip: "strip_zeros pad = (if kept = [] then ''0'' else kept)"
    by (simp add: strip_zeros_def kept_def Let_def)
  show "list_all is_digit (strip_zeros pad)"
    unfolding strip using kept zero by simp
  show "strip_zeros pad \<noteq> []"
    unfolding strip by simp
qed

lemma strip_zeros_value:
  "of_int (digits_val (strip_zeros pad)) / 10 ^ length (strip_zeros pad)
     = (of_int (digits_val pad) / 10 ^ length pad :: rat)"
proof -
  define kept where "kept = rev (dropWhile (\<lambda>c. c = CHR ''0'') (rev pad))"
  define zs where "zs = rev (takeWhile (\<lambda>c. c = CHR ''0'') (rev pad))"
  have pad: "pad = kept @ zs"
    using takeWhile_dropWhile_id [of "\<lambda>c. c = CHR ''0''" "rev pad"]
    by (simp add: kept_def zs_def flip: rev_append)
  have "\<forall>c\<in>set zs. c = CHR ''0''"
    using set_takeWhileD [of _ "\<lambda>c. c = CHR ''0''" "rev pad"] by (auto simp: zs_def)
  then have zs0: "digits_val zs = 0"
    by (rule digits_val_zeros)
  have val: "of_int (digits_val pad) / 10 ^ length pad
               = (of_int (digits_val kept) / 10 ^ length kept :: rat)"
    by (simp add: pad digits_val_append zs0 power_add)
  show ?thesis
  proof (cases "kept = []")
    case True
    then show ?thesis
      using val by (simp add: strip_zeros_def kept_def [symmetric] digits_val_def digit_val_def)
  next
    case False
    then show ?thesis
      using val by (simp add: strip_zeros_def kept_def [symmetric])
  qed
qed

lemma rat_div_mod:
  assumes "D \<noteq> 0"
  shows "(of_int (v div D) :: rat) + of_int (v mod D) / of_int D = of_int v / of_int D"
proof -
  have "(of_int v :: rat) = of_int (v div D * D + v mod D)"
    by simp
  also have "\<dots> = of_int (v div D) * of_int D + of_int (v mod D)"
    by (simp only: of_int_add of_int_mult)
  finally show ?thesis
    using assms by (simp add: field_simps)
qed

lemma ToNumber_formatEther: "ToNumber (Str (formatEther wei)) = fl (of_int wei / 10 ^ 18)"
proof -
  define v where "v = \<bar>wei\<bar>"
  define digits where "digits = show_nat (v mod 10 ^ 18)"
  define pad where "pad = replicate (18 - length digits) (CHR ''0'') @ digits"
  define fraction where "fraction = strip_zeros pad"
  define whole where "whole = show_nat (v div 10 ^ 18)"
  have fmt: "formatEther wei = (if wei < 0 then ''-'' else []) @ whole @ ''.'' @ fraction"
    by (simp add: formatEther_def Let_def v_def digits_def pad_def fraction_def whole_def)
  have v0: "0 \<le> v"
    by (simp add: v_def)
  have "length digits \<le> 18"
    unfolding digits_def by (rule length_show_nat) simp_all
  then have len: "length pad = 18"
    by (simp add: pad_def)
  have "digits_val digits = v mod 10 ^ 18"
    unfolding digits_def by (rule digits_val_show_nat) simp
  then have padval: "digits_val pad = v mod 10 ^ 18"
    by (simp add: pad_def digits_val_append digits_val_zeros)
  have "list_all is_digit (replicate (18 - length digits) (CHR ''0''))"
    by (simp add: list_all_iff is_digit_def)
  then have "list_all is_digit pad"
    by (simp add: pad_def digits_def show_nat_digits)
  from strip_zeros_digits [OF this]
  have frac: "list_all is_digit fraction" "fraction \<noteq> []"
    by (simp_all add: fraction_def)
  have wh: "list_all is_digit whole" "whole \<noteq> []"
    by (simp_all add: whole_def show_nat_digits show_nat_nonempty)
  have whval: "digits_val whole = v div 10 ^ 18"
    unfolding whole_def using v0 by (intro digits_val_show_nat) (simp add: pos_imp_zdiv_nonneg_iff)
  have "of_int (digits_val (whole @ fraction)) * pow10 (- int (length fraction))
          = of_int (v div 10 ^ 18) + (of_int (v mod 10 ^ 18) / 10 ^ 18 :: rat)"
    unfolding decimal_value fraction_def strip_zeros_value
    by (simp add: whval padval len)
  also have "\<dots> = of_int v / 10 ^ 18"
    using rat_div_mod [of "10 ^ 18" v] by simp
  finally have parsed: "of_int (digits_val (whole @ fraction)) * pow10 (- int (length fraction))
      = (of_int v / 10 ^ 18 :: rat)" .
  have scan: "scan_unsigned (whole @ CHR ''.'' # fraction) = Some (fl (of_int v / 10 ^ 18), [])"
    using scan_unsigned_decimal [OF wh frac(1)] by (simp add: parsed)
  have rest: "CHR ''.'' # fraction = [] \<or>
      (hd (CHR ''.'' # fraction) = CHR ''.'' \<and> is_digit (last (CHR ''.'' # fraction)))"
    using frac by (simp add: list_all_iff)
  note lit = StringToNumber_literal [OF wh rest scan]
  show ?thesis
  proof (cases "wei < 0")
    case False
    then have "of_int v = (of_int wei :: rat)"
      by (simp add: v_def)
    moreover from False have "formatEther wei = whole @ CHR ''.'' # fraction"
      by (simp add: fmt)
    ultimately show ?thesis
      using lit(1) by (simp only: ToNumber.simps)
  next
    case True
    then have "of_int v / 10 ^ 18 = (- (of_int wei / 10 ^ 18) :: rat)"
      by (simp add: v_def)
    then have "fneg (fl (of_int v / 10 ^ 18)) = fl (of_int wei / 10 ^ 18)"
      using fl_neg [of "of_int wei / 10 ^ 18"] by (simp only: fneg_fneg)
    moreover from True have "formatEther wei = CHR ''-'' # whole @ CHR ''.'' # fraction"
      by (simp add: fmt)
    ultimately show ?thesis
      using lit(2) by (simp only: ToNumber.simps)
  qed
qed

section \<open>Properties of the odds\<close>

lemma Math_pow_unit:
  assumes pw: "\<And>x n. 0 < x \<Longrightarrow> x \<le> 1 \<Longrightarrow> 0 < n \<Longrightarrow> \<exists>p. pw x n = Fin p \<and> 0 \<le> p \<and> p \<le> 1"
    and "0 \<le> b" "b \<le> 1" "0 \<le> n"
  shows "\<exists>p. Math_pow pw (Fin b) n = Fin p \<and> 0 \<le> p \<and> p \<le> 1"
proof (cases "n = 0 \<or> b = 0")
  case True
  with assms(2-4) show ?thesis
    by (auto simp: Math_pow_def)
next
  case False
  with assms(2-4) have n: "0 < n" and b: "0 < b"
    by simp_all
  from pw [OF b assms(3) n] n b show ?thesis
    by (simp add: Math_pow_def)
qed

lemma pow_nearest_unit:
  assumes "0 < x" "x \<le> 1" "0 < n"
  shows "\<exists>p. pow_nearest x n = Fin p \<and> 0 \<le> p \<and> p \<le> 1"
proof -
  have "0 \<le> x ^ nat n" "x ^ nat n \<le> 1"
    using assms by (simp_all add: power_le_one)
  from fl_between [OF fl_one this] assms(3) show ?thesis
    by (simp add: pow_nearest_def)
qed

lemma fl_half: "fl (1 / 2) = Fin (1 / 2)"
  by code_simp

lemma fl_three_quarters: "fl (3 / 4) = Fin (3 / 4)"
  by code_simp

lemma fl_four_thirds: "fl (4 / 3) = Fin (6004799503160661 / 4503599627370496)"
  by code_simp

lemma fl_minus_one: "fl (- 1) = Fin (- 1)"
  by code_simp

lemma pow_nearest_quarter: "pow_nearest (1 / 2) 2 = Fin (1 / 4)"
  by code_simp

lemma pow_nearest_two: "pow_nearest (1 / 2) (- 1) = Fin 2"
  by code_simp

lemma parseFloat_string_zero: "parseFloat (Str ''0'') = Fin 0"
  by code_simp

lemma parseFloat_hex_string: "parseFloat (Str ''0x10'') = Fin 0"
  by code_simp

lemma ToNumber_hex_string: "ToNumber (Str ''0x10'') = Fin 16"
  by code_simp

lemma parseFloat_nbsp_zero: "parseFloat (Str [CHR 0xA0, CHR ''0'']) = Fin 0"
  by code_simp

lemma parseFloat_prefix: "parseFloat (Str ''5abc'') = Fin 5"
  by code_simp

lemma ToNumber_prefix: "ToNumber (Str ''5abc'') = NaN"
  by code_simp

text \<open>
  Claim C3, amended: for every finite value \<open>t > 0\<close> of the deposits, every balance
  whose numeric value lies strictly between 0 and \<open>t\<close> and that \<^verbatim>\<open>parseFloat\<close> does not
  read as 0, and every integer winners count that is not negative, \<^verbatim>\<open>calculateOdds\<close>
  returns a Number that is at least 1 (it may be \<^verbatim>\<open>Infinity\<close>, which is what zero winners
  give), provided that the engine's \<^verbatim>\<open>Math.pow\<close> maps a base in the interval from 0 to 1
  and a positive integer exponent to a Number in that interval.
\<close>

theorem calculateOdds_at_least_one:
  assumes pw: "\<And>x n. 0 < x \<Longrightarrow> x \<le> 1 \<Longrightarrow> 0 < n \<Longrightarrow> \<exists>p. pw x n = Fin p \<and> 0 \<le> p \<and> p \<le> 1"
    and t: "fl t = Fin t"
    and u: "ToNumber usersPoolBalance = Fin u" and u0: "0 < u" and ut: "u < t"
    and nz: "parseFloat usersPoolBalance \<noteq> Fin 0"
    and w: "0 \<le> winners"
  shows "\<exists>r. calculateOdds pw usersPoolBalance (Fin t) winners = Number r \<and> js_le (Fin 1) r"
proof -
  from u0 ut have tpos: "0 < t"
    by simp
  have not_undefined: "\<not> strict_eq usersPoolBalance Undefined"
    using u by (cases usersPoolBalance) simp_all
  have not_zero: "\<not> strict_eq usersPoolBalance (Number (Fin 0))"
    using u u0 by (cases usersPoolBalance) auto
  have not_parsed_zero: "\<not> strict_eq (Number (parseFloat usersPoolBalance)) (Number (Fin 0))"
    using nz by simp
  obtain a where a: "fl (t - u) = Fin a" "0 \<le> a" "a \<le> t"
    using fl_between [OF t, of "t - u"] u0 ut by auto
  have "0 \<le> a / t" "a / t \<le> 1"
    using a tpos by simp_all
  from fl_between [OF fl_one this]
  obtain b where b: "fl (a / t) = Fin b" "0 \<le> b" "b \<le> 1"
    by auto
  obtain p where p: "Math_pow pw (Fin b) winners = Fin p" "0 \<le> p" "p \<le> 1"
    using Math_pow_unit [of pw, OF pw b(2,3) w] by auto
  have "0 \<le> 1 - p" "1 - p \<le> 1"
    using p by simp_all
  from fl_between [OF fl_one this]
  obtain d where d: "fl (1 - p) = Fin d" "0 \<le> d" "d \<le> 1"
    by auto
  have odds: "calculateOdds pw usersPoolBalance (Fin t) winners = Number (fdiv (Fin 1) (Fin d))"
    using not_undefined not_zero not_parsed_zero tpos a(1) b(1) p(1) d(1)
    by (simp add: calculateOdds_def u del: strict_eq.simps)
  show ?thesis
  proof (cases "d = 0")
    case True
    then show ?thesis
      by (simp add: odds)
  next
    case False
    with d have "1 \<le> 1 / d"
      by (simp add: le_divide_eq_1_pos)
    from fl_ge_one [OF this] False show ?thesis
      by (auto simp: odds)
  qed
qed

theorem calculateOdds_at_least_one_witness:
  "fl 2 = Fin 2 \<and> ToNumber (Number (Fin 1)) = Fin 1 \<and> (0::rat) < 1 \<and> (1::rat) < 2
   \<and> parseFloat (Number (Fin 1)) \<noteq> Fin 0 \<and> (0::int) \<le> 2
   \<and> calculateOdds pow_nearest (Number (Fin 1)) (Fin 2) 2
       = Number (Fin (6004799503160661 / 4503599627370496))
   \<and> js_le (Fin 1) (Fin (6004799503160661 / 4503599627370496))"
proof -
  have t: "fl 2 = Fin 2"
    by code_simp
  have u: "ToNumber (Number (Fin 1)) = Fin 1" and nz: "parseFloat (Number (Fin 1)) \<noteq> Fin 0"
    by simp_all
  have odds: "calculateOdds pow_nearest (Number (Fin 1)) (Fin 2) 2
      = Number (Fin (6004799503160661 / 4503599627370496))"
    by (simp add: calculateOdds_def Math_pow_def fl_one fl_half fl_three_quarters fl_four_thirds
          pow_nearest_quarter)
  from calculateOdds_at_least_one [of pow_nearest 2 "Number (Fin 1)" 1 2, OF pow_nearest_unit t u _ _ nz]
  have "\<exists>r. calculateOdds pow_nearest (Number (Fin 1)) (Fin 2) 2 = Number r \<and> js_le (Fin 1) r"
    by simp
  with t u nz show ?thesis
    unfolding odds by auto
qed

text \<open>
  The claim as stated allows every integer winners count. With deposits 2, balance 1 and
  - 1 winners the base is \<open>1 / 2\<close>, whose power \<open>(1 / 2) ^ - 1 = 2\<close> is exact in every
  engine, and the result is \<open>1 / (1 - 2) = - 1\<close>, which is not at least 1. The two other
  conditions of the amended claim are needed as well: the string \<^verbatim>\<open>"0x10"\<close> is 16 as an
  operand of the comparisons and of \<^verbatim>\<open>-\<close>, so it lies strictly between 0 and 100, but
  \<^verbatim>\<open>parseFloat\<close> reads it as 0 and the result is the marker; and with infinite deposits
  the result is NaN.
\<close>

theorem calculateOdds_negative_winners_counterexample:
  "(0::rat) < 2 \<and> (0::rat) < 1 \<and> (1::rat) < 2
   \<and> calculateOdds pow_nearest (Number (Fin 1)) (Fin 2) (- 1) = Number (Fin (- 1))
   \<and> \<not> js_le (Fin 1) (Fin (- 1))
   \<and> ToNumber (Str ''0x10'') = Fin 16 \<and> (0::rat) < 16 \<and> (16::rat) < 100
   \<and> calculateOdds pow_nearest (Str ''0x10'') (Fin 100) 1 = Str ''ngmi''
   \<and> js_lt (Fin 0) PInf \<and> js_lt (Fin 1) PInf
   \<and> calculateOdds pow_nearest (Number (Fin 1)) PInf 1 = Number NaN
   \<and> \<not> js_le (Fin 1) NaN"
proof -
  have negative: "calculateOdds pow_nearest (Number (Fin 1)) (Fin 2) (- 1) = Number (Fin (- 1))"
    by (simp add: calculateOdds_def Math_pow_def fl_one fl_half fl_minus_one pow_nearest_two)
  have hex: "calculateOdds pow_nearest (Str ''0x10'') (Fin 100) 1 = Str ''ngmi''"
    by (simp add: calculateOdds_def parseFloat_hex_string del: parseFloat.simps)
  have infinite: "calculateOdds pow_nearest (Number (Fin 1)) PInf 1 = Number NaN"
    by (simp add: calculateOdds_def Math_pow_def)
  from negative hex infinite ToNumber_hex_string show ?thesis
    by simp
qed

text \<open>
  Claim C9: for every finite deposits value \<open>t > 0\<close> and every winners count of at least
  1, \<^verbatim>\<open>calculateOdds(t, t, winners)\<close> is exactly 1, whatever the engine's \<^verbatim>\<open>Math.pow\<close>
  does on nonzero bases.
\<close>

theorem calculateOdds_whole_pool:
  assumes "0 < t" and "1 \<le> winners"
  shows "calculateOdds pw (Number (Fin t)) (Fin t) winners = Number (Fin 1)"
  using assms by (simp add: calculateOdds_def Math_pow_def fl_zero fl_one)

theorem calculateOdds_whole_pool_witness:
  "(0::rat) < 7 \<and> (1::int) \<le> 5
   \<and> calculateOdds pow_nearest (Number (Fin 7)) (Fin 7) 5 = Number (Fin 1)"
  using calculateOdds_whole_pool [of 7 5 pow_nearest] by simp

text \<open>
  Claim C2: for all deposits and winners, \<^verbatim>\<open>calculateOdds\<close> returns the marker
  \<^verbatim>\<open>"ngmi"\<close> exactly when the balance is \<^verbatim>\<open>undefined\<close>, the Number 0, or a value that
  \<^verbatim>\<open>parseFloat\<close> reads as 0, such as the string \<^verbatim>\<open>"0"\<close>; for every other balance it
  returns the Number \<^verbatim>\<open>1 / (1 - Math.pow((total - balance) / total, winners))\<close>, with
  \<^verbatim>\<open>Math.pow\<close> as the engine computes it. The statement holds for every engine \<open>pw\<close>.
  Its last conjuncts fix what the two branches give on concrete balances: strings that
  \<^verbatim>\<open>parseFloat\<close> reads as 0 (\<^verbatim>\<open>"0"\<close>, the prefix of \<^verbatim>\<open>"0x10"\<close>, a zero after a no-break
  space), a string that \<^verbatim>\<open>parseFloat\<close> reads as 5 but that is NaN as an operand, zero
  winners, a zero base, and the base \<open>1 / 2\<close> squared, where the power is exact.
\<close>

theorem calculateOdds_cases:
  "(calculateOdds pw usersPoolBalance totalPoolDeposits winners = Str ''ngmi'')
     = (usersPoolBalance = Undefined \<or> usersPoolBalance = Number (Fin 0)
        \<or> parseFloat usersPoolBalance = Fin 0)
   \<and> (\<not> (usersPoolBalance = Undefined \<or> usersPoolBalance = Number (Fin 0)
           \<or> parseFloat usersPoolBalance = Fin 0) \<longrightarrow>
        calculateOdds pw usersPoolBalance totalPoolDeposits winners
          = Number (fdiv (Fin 1)
              (fsub (Fin 1)
                 (Math_pow pw (fdiv (fsub totalPoolDeposits (ToNumber usersPoolBalance)) totalPoolDeposits)
                    winners))))
   \<and> calculateOdds pw (Str ''0'') totalPoolDeposits winners = Str ''ngmi''
   \<and> calculateOdds pw (Str ''0x10'') totalPoolDeposits winners = Str ''ngmi''
   \<and> calculateOdds pw (Str [CHR 0xA0, CHR ''0'']) totalPoolDeposits winners = Str ''ngmi''
   \<and> calculateOdds pw (Str ''5abc'') (Fin 10) 1 = Number NaN
   \<and> calculateOdds pw (Number (Fin 1)) (Fin 2) 0 = Number PInf
   \<and> calculateOdds pw (Number (Fin 5)) (Fin 5) 3 = Number (Fin 1)
   \<and> (pw (1 / 2) 2 = Fin (1 / 4) \<longrightarrow>
        calculateOdds pw (Number (Fin 1)) (Fin 2) 2
          = Number (Fin (6004799503160661 / 4503599627370496)))"
proof -
  have u: "strict_eq usersPoolBalance Undefined = (usersPoolBalance = Undefined)"
    by (cases usersPoolBalance) simp_all
  have z: "strict_eq usersPoolBalance (Number (Fin 0)) = (usersPoolBalance = Number (Fin 0))"
    by (cases usersPoolBalance) auto
  have p: "strict_eq (Number (parseFloat usersPoolBalance)) (Number (Fin 0))
             = (parseFloat usersPoolBalance = Fin 0)"
    by auto
  have general:
    "(calculateOdds pw usersPoolBalance totalPoolDeposits winners = Str ''ngmi'')
       = (usersPoolBalance = Undefined \<or> usersPoolBalance = Number (Fin 0)
          \<or> parseFloat usersPoolBalance = Fin 0)"
    "\<not> (usersPoolBalance = Undefined \<or> usersPoolBalance = Number (Fin 0)
           \<or> parseFloat usersPoolBalance = Fin 0) \<longrightarrow>
        calculateOdds pw usersPoolBalance totalPoolDeposits winners
          = Number (fdiv (Fin 1)
              (fsub (Fin 1)
                 (Math_pow pw (fdiv (fsub totalPoolDeposits (ToNumber usersPoolBalance)) totalPoolDeposits)
                    winners)))"
    unfolding calculateOdds_def u z p by simp_all
  have markers:
    "calculateOdds pw (Str ''0'') totalPoolDeposits winners = Str ''ngmi''"
    "calculateOdds pw (Str ''0x10'') totalPoolDeposits winners = Str ''ngmi''"
    "calculateOdds pw (Str [CHR 0xA0, CHR ''0'']) totalPoolDeposits winners = Str ''ngmi''"
    by (simp_all add: calculateOdds_def parseFloat_string_zero parseFloat_hex_string
          parseFloat_nbsp_zero del: parseFloat.simps)
  have prefix: "calculateOdds pw (Str ''5abc'') (Fin 10) 1 = Number NaN"
    by (simp add: calculateOdds_def parseFloat_prefix ToNumber_prefix Math_pow_def
          del: parseFloat.simps ToNumber.simps)
  have no_winners: "calculateOdds pw (Number (Fin 1)) (Fin 2) 0 = Number PInf"
    by (simp add: calculateOdds_def Math_pow_def fl_one fl_half fl_zero)
  have zero_base: "calculateOdds pw (Number (Fin 5)) (Fin 5) 3 = Number (Fin 1)"
    by (simp add: calculateOdds_def Math_pow_def fl_zero fl_one)
  have squared: "pw (1 / 2) 2 = Fin (1 / 4) \<longrightarrow>
      calculateOdds pw (Number (Fin 1)) (Fin 2) 2 = Number (Fin (6004799503160661 / 4503599627370496))"
    by (simp add: calculateOdds_def Math_pow_def fl_one fl_half fl_three_quarters fl_four_thirds)
  from general markers prefix no_winners zero_base squared show ?thesis
    by blast
qed

theorem calculateOdds_cases_witness:
  "\<not> (Number (Fin 1) = Undefined \<or> Number (Fin 1) = Number (Fin 0) \<or> parseFloat (Number (Fin 1)) = Fin 0)
   \<and> pow_nearest (1 / 2) 2 = Fin (1 / 4)
   \<and> calculateOdds pow_nearest (Number (Fin 1)) (Fin 2) 2
       = Number (fdiv (Fin 1) (fsub (Fin 1)
           (Math_pow pow_nearest (fdiv (fsub (Fin 2) (ToNumber (Number (Fin 1)))) (Fin 2)) 2)))
   \<and> calculateOdds pow_nearest (Number (Fin 1)) (Fin 2) 2
       = Number (Fin (6004799503160661 / 4503599627370496))"
proof -
  have c: "\<not> (Number (Fin 1) = Undefined \<or> Number (Fin 1) = Number (Fin 0) \<or> parseFloat (Number (Fin 1)) = Fin 0)"
    by simp
  from calculateOdds_cases [of pow_nearest "Number (Fin 1)" "Fin 2" 2] c pow_nearest_quarter
  show ?thesis
    by blast
qed

section \<open>Properties of the credit maturation\<close>

lemma day_is_one: "secondsToDaysForInput (BigNumber 86400) = Fin 1"
  by code_simp

text \<open>
  Claim C1, amended: for every positive rate, \<^verbatim>\<open>getCreditMaturationDaysAndLimitPercentage\<close>
  returns the pair of \<^verbatim>\<open>Math.round(((limit div rate) / 60 / 60 / 24) * 10000) / 10000\<close>
  and \<^verbatim>\<open>Math.round((limit / 10^18) * 100)\<close>, where \<^verbatim>\<open>div\<close> truncates, the quotient and
  the fraction \<open>limit / 10 ^ 18\<close> are taken as the nearest binary64 values, and each
  of the three divisions by 60, 60 and 24, the multiplications and the last division is
  a binary64 operation with its own rounding. A maturation of 86400 seconds gives exactly
  1 day. (The three successive divisions are not one exact division by 86400: see the
  counterexample.)
\<close>

theorem getCredit_positive_rate:
  assumes "0 < rate"
  shows "getCreditMaturationDaysAndLimitPercentage rate limit =
           (fdiv (Math_round
                    (fmul (fdiv (fdiv (fdiv (fl (of_int (bn_div limit rate))) (Fin 60)) (Fin 60)) (Fin 24))
                          (Fin 10000)))
                 (Fin 10000),
            Math_round (fmul (fl (of_int limit / 10 ^ 18)) (Fin 100)))
       \<and> (bn_div limit rate = 86400 \<longrightarrow>
            fst (getCreditMaturationDaysAndLimitPercentage rate limit) = Fin 1)"
proof -
  have pair: "getCreditMaturationDaysAndLimitPercentage rate limit =
      (secondsToDaysForInput (BigNumber (bn_div limit rate)),
       fractionToPercentage (Str (formatEther limit)))"
    using assms by (simp add: getCreditMaturationDaysAndLimitPercentage_def Let_def)
  show ?thesis
    unfolding pair
    by (auto simp only: secondsToDaysForInput_def fractionToPercentage_def ToNumber_BigNumber
          ToNumber_formatEther fst_conv day_is_one [unfolded secondsToDaysForInput_def ToNumber_BigNumber])
qed

theorem getCredit_positive_rate_witness:
  "(0::int) < 1157407407407
   \<and> bn_div 100000000000000000 1157407407407 = 86400
   \<and> getCreditMaturationDaysAndLimitPercentage 1157407407407 100000000000000000 = (Fin 1, Fin 10)"
proof -
  have r: "(0::int) < 1157407407407"
    by simp
  have s: "bn_div 100000000000000000 1157407407407 = 86400"
    by code_simp
  have p: "Math_round (fmul (fl (of_int 100000000000000000 / 10 ^ 18)) (Fin 100)) = Fin 10"
    by code_simp
  from getCredit_positive_rate [OF r, of 100000000000000000] r s show ?thesis
    unfolding p by (metis fst_conv)
qed

text \<open>
  With rate 1 and limit 540 the maturation is 540 seconds. The claim's formula gives
  \<open>round (540 / 86400 * 10000) / 10000 = 63 / 10000\<close>, in exact arithmetic and also when
  the single division by 86400 is done on Numbers. The function divides by 60, 60 and
  24 in turn, which gives 62.49999999999999 before \<^verbatim>\<open>Math.round\<close>, and returns the
  binary64 value of 0.0062, not that of 0.0063.
\<close>

theorem getCredit_540_counterexample:
  "(0::int) < 1
   \<and> getCreditMaturationDaysAndLimitPercentage 1 540
       = (Fin (7148113328562451 / 1152921504606846976), Fin 0)
   \<and> claimed_days 1 540 = 63 / 10000
   \<and> fl (claimed_days 1 540) = Fin (226981421219473 / 36028797018963968)
   \<and> claimed_days_double 1 540 = Fin (226981421219473 / 36028797018963968)
   \<and> fst (getCreditMaturationDaysAndLimitPercentage 1 540) \<noteq> fl (claimed_days 1 540)
   \<and> fst (getCreditMaturationDaysAndLimitPercentage 1 540) \<noteq> claimed_days_double 1 540"
  by code_simp

lemma no_maturation: "secondsToDaysForInput (Number (Fin 0)) = Fin 0"
  by code_simp

text \<open>
  Claim C4: with rate 0, whatever the limit, the first component of the pair is 0 and the
  second is still the percentage computed from the limit: \<^verbatim>\<open>fractionToPercentage\<close> of
  \<^verbatim>\<open>formatEther(limit)\<close>, the same as for any other rate.
\<close>

theorem getCredit_zero_rate:
  "fst (getCreditMaturationDaysAndLimitPercentage 0 limit) = Fin 0
   \<and> snd (getCreditMaturationDaysAndLimitPercentage 0 limit)
       = fractionToPercentage (Str (formatEther limit))
   \<and> snd (getCreditMaturationDaysAndLimitPercentage 0 limit)
       = Math_round (fmul (fl (of_int limit / 10 ^ 18)) (Fin 100))
   \<and> snd (getCreditMaturationDaysAndLimitPercentage 0 limit)
       = snd (getCreditMaturationDaysAndLimitPercentage rate limit)"
  by (simp add: getCreditMaturationDaysAndLimitPercentage_def Let_def no_maturation
        fractionToPercentage_def ToNumber_formatEther del: ToNumber.simps(3))

section \<open>Properties of the link resolver\<close>

text \<open>
  Claim C8: for every chainID, 4 or not, \<^verbatim>\<open>poolTogetherUILinks\<close> returns the same fixed
  pair of URL strings; the output does not depend on the input.
\<close>

theorem poolTogetherUILinks_constant:
  "poolTogetherUILinks chainID =
     (''https://community.pooltogether.com/pools/rinkeby/0x60bc094cb0c966e60ed3be0549e92f3bc572e9f8/home'',
      ''https://community.pooltogether.com/pools/rinkeby/0x60bc094cb0c966e60ed3be0549e92f3bc572e9f8/manage#stats'')
   \<and> poolTogetherUILinks chainID = poolTogetherUILinks (Number (Fin 4))"
  by (simp add: poolTogetherUILinks_def)

section \<open>Properties of the listener helpers\<close>

lemma listeners_of_removed:
  "listeners_of (apply_effect reg (RemoveEthersEventListener p t a)) p t a = []"
  by (induction reg) (auto simp: listeners_of_def)

text \<open>
  Claim C5: with the network in the table, \<^verbatim>\<open>listenAndHandleRNGStartEvent\<close> called with
  \<^verbatim>\<open>secondsLeft <= 0\<close> makes exactly one \<^verbatim>\<open>addEthersEventListener\<close> call and no
  \<^verbatim>\<open>removeEthersEventListener\<close> call, for the topic
  \<^verbatim>\<open>RandomNumberRequested(uint32,address)\<close> on the prize-strategy address; called with
  \<^verbatim>\<open>secondsLeft > 0\<close> it makes exactly one \<^verbatim>\<open>removeEthersEventListener\<close> call for that
  topic and address and registers nothing.
\<close>

theorem listenAndHandleRNGStartEvent_gate:
  assumes "addresses networkID = Some entry"
  shows "(js_le secondsLeft (Fin 0) \<longrightarrow>
            filter is_add (fst (listenAndHandleRNGStartEvent addresses provider networkID secondsLeft eventHandler))
              = [AddEthersEventListener provider ''RandomNumberRequested(uint32,address)''
                   (PRIZE_STRATEGY_ADDRESS (POOL_TOGETHER entry))
                   (HandlerFunc provider ''RandomNumberRequested(uint32,address)''
                      (PRIZE_STRATEGY_ADDRESS (POOL_TOGETHER entry)) eventHandler)]
          \<and> filter is_remove (fst (listenAndHandleRNGStartEvent addresses provider networkID secondsLeft eventHandler)) = [])
       \<and> (js_lt (Fin 0) secondsLeft \<longrightarrow>
            filter is_remove (fst (listenAndHandleRNGStartEvent addresses provider networkID secondsLeft eventHandler))
              = [RemoveEthersEventListener provider ''RandomNumberRequested(uint32,address)''
                   (PRIZE_STRATEGY_ADDRESS (POOL_TOGETHER entry))]
          \<and> filter is_add (fst (listenAndHandleRNGStartEvent addresses provider networkID secondsLeft eventHandler)) = [])"
proof -
  have "js_lt (Fin 0) secondsLeft \<Longrightarrow> \<not> js_le secondsLeft (Fin 0)"
    by (cases secondsLeft) auto
  with assms show ?thesis
    by (auto simp: listenAndHandleRNGStartEvent_def Let_def)
qed

theorem listenAndHandleRNGStartEvent_gate_witness:
  "filter is_add (fst (listenAndHandleRNGStartEvent rinkeby_only ''provider'' 4 (Fin 0) (Callback ''cb'' None)))
     = [AddEthersEventListener ''provider'' ''RandomNumberRequested(uint32,address)''
          ''0xeeb552c4d5e155e50ee3f7402ed379bf72e36f23''
          (HandlerFunc ''provider'' ''RandomNumberRequested(uint32,address)''
             ''0xeeb552c4d5e155e50ee3f7402ed379bf72e36f23'' (Callback ''cb'' None))]
   \<and> filter is_remove (fst (listenAndHandleRNGStartEvent rinkeby_only ''provider'' 4 (Fin 0) (Callback ''cb'' None))) = []
   \<and> filter is_remove (fst (listenAndHandleRNGStartEvent rinkeby_only ''provider'' 4 (Fin 5) (Callback ''cb'' None)))
     = [RemoveEthersEventListener ''provider'' ''RandomNumberRequested(uint32,address)''
          ''0xeeb552c4d5e155e50ee3f7402ed379bf72e36f23'']
   \<and> filter is_add (fst (listenAndHandleRNGStartEvent rinkeby_only ''provider'' 4 (Fin 5) (Callback ''cb'' None))) = []"
proof -
  have tbl: "rinkeby_only 4 = Some rinkeby_entry"
    by (simp add: rinkeby_only_def)
  have addr: "PRIZE_STRATEGY_ADDRESS (POOL_TOGETHER rinkeby_entry) = ''0xeeb552c4d5e155e50ee3f7402ed379bf72e36f23''"
    by (simp add: rinkeby_entry_def)
  have le0: "js_le (Fin 0) (Fin 0)" and lt5: "js_lt (Fin 0) (Fin 5)"
    by simp_all
  note gate = listenAndHandleRNGStartEvent_gate
      [where addresses = rinkeby_only and networkID = 4 and entry = rinkeby_entry
         and provider = "''provider''" and eventHandler = "Callback ''cb'' None", OF tbl]
  from gate [where secondsLeft = "Fin 0"] gate [where secondsLeft = "Fin 5"] le0 lt5
  show ?thesis
    unfolding addr by blast
qed

text \<open>
  Claim C6: for each of the three listener helpers, the handler it installs performs,
  when it fires and the callback returns, exactly three effects in this order: one
  \<^verbatim>\<open>removeEthersEventListener\<close> call for the topic and address it was registered under,
  one call of the caller's \<^verbatim>\<open>eventHandler\<close>, and one \<^verbatim>\<open>setTimeout\<close> of the page reload with
  a delay of 15000 ms.
\<close>

theorem installed_handler_effects:
  assumes "(p, t, a, h) \<in> set (registered (fst (listenAndHandleRNGCompleteEvent addresses provider networkID eventHandler)))
         \<or> (p, t, a, h) \<in> set (registered (fst (listenAndHandleDepositEvent addresses provider networkID eventHandler)))
         \<or> (p, t, a, h) \<in> set (registered (fst (listenAndHandleRNGStartEvent addresses provider networkID secondsLeft eventHandler)))"
    and "cb_throws eventHandler = None"
  shows "handlerFunc h =
           ([RemoveEthersEventListener p t a, CallEventHandler eventHandler,
             SetTimeout WindowLocationReload 15000], Inr ())"
  using assms
  by (auto simp: listenAndHandleRNGCompleteEvent_def listenAndHandleDepositEvent_def
        listenAndHandleRNGStartEvent_def Let_def split: option.splits if_splits)

theorem installed_handler_effects_witness:
  "(''provider'', ''RandomNumberCompleted(uint32,uint256)'', ''0xeeb552c4d5e155e50ee3f7402ed379bf72e36f23'',
      HandlerFunc ''provider'' ''RandomNumberCompleted(uint32,uint256)''
        ''0xeeb552c4d5e155e50ee3f7402ed379bf72e36f23'' (Callback ''cb'' None))
     \<in> set (registered (fst (listenAndHandleRNGCompleteEvent rinkeby_only ''provider'' 4 (Callback ''cb'' None))))
   \<and> handlerFunc (HandlerFunc ''provider'' ''RandomNumberCompleted(uint32,uint256)''
        ''0xeeb552c4d5e155e50ee3f7402ed379bf72e36f23'' (Callback ''cb'' None))
       = ([RemoveEthersEventListener ''provider'' ''RandomNumberCompleted(uint32,uint256)''
             ''0xeeb552c4d5e155e50ee3f7402ed379bf72e36f23'',
           CallEventHandler (Callback ''cb'' None),
           SetTimeout WindowLocationReload 15000], Inr ())
   \<and> (''provider'', ''Deposited(address,address,address,uint256,address)'', ''0x60bc094cb0c966e60ed3be0549e92f3bc572e9f8'',
      HandlerFunc ''provider'' ''Deposited(address,address,address,uint256,address)''
        ''0x60bc094cb0c966e60ed3be0549e92f3bc572e9f8'' (Callback ''cb'' None))
     \<in> set (registered (fst (listenAndHandleDepositEvent rinkeby_only ''provider'' 4 (Callback ''cb'' None))))
   \<and> handlerFunc (HandlerFunc ''provider'' ''Deposited(address,address,address,uint256,address)''
        ''0x60bc094cb0c966e60ed3be0549e92f3bc572e9f8'' (Callback ''cb'' None))
       = ([RemoveEthersEventListener ''provider'' ''Deposited(address,address,address,uint256,address)''
             ''0x60bc094cb0c966e60ed3be0549e92f3bc572e9f8'',
           CallEventHandler (Callback ''cb'' None),
           SetTimeout WindowLocationReload 15000], Inr ())
   \<and> (''provider'', ''RandomNumberRequested(uint32,address)'', ''0xeeb552c4d5e155e50ee3f7402ed379bf72e36f23'',
      HandlerFunc ''provider'' ''RandomNumberRequested(uint32,address)''
        ''0xeeb552c4d5e155e50ee3f7402ed379bf72e36f23'' (Callback ''cb'' None))
     \<in> set (registered (fst (listenAndHandleRNGStartEvent rinkeby_only ''provider'' 4 (Fin 0) (Callback ''cb'' None))))
   \<and> handlerFunc (HandlerFunc ''provider'' ''RandomNumberRequested(uint32,address)''
        ''0xeeb552c4d5e155e50ee3f7402ed379bf72e36f23'' (Callback ''cb'' None))
       = ([RemoveEthersEventListener ''provider'' ''RandomNumberRequested(uint32,address)''
             ''0xeeb552c4d5e155e50ee3f7402ed379bf72e36f23'',
           CallEventHandler (Callback ''cb'' None),
           SetTimeout WindowLocationReload 15000], Inr ())"
proof -
  let ?cb = "Callback ''cb'' None"
  let ?s = "''0xeeb552c4d5e155e50ee3f7402ed379bf72e36f23''"
  let ?d = "''0x60bc094cb0c966e60ed3be0549e92f3bc572e9f8''"
  let ?hc = "HandlerFunc ''provider'' ''RandomNumberCompleted(uint32,uint256)'' ?s ?cb"
  let ?hd = "HandlerFunc ''provider'' ''Deposited(address,address,address,uint256,address)'' ?d ?cb"
  let ?hs = "HandlerFunc ''provider'' ''RandomNumberRequested(uint32,address)'' ?s ?cb"
  have returns: "cb_throws ?cb = None"
    by simp
  have mc: "(''provider'', ''RandomNumberCompleted(uint32,uint256)'', ?s, ?hc)
      \<in> set (registered (fst (listenAndHandleRNGCompleteEvent rinkeby_only ''provider'' 4 ?cb)))"
    by (simp add: listenAndHandleRNGCompleteEvent_def rinkeby_only_def rinkeby_entry_def Let_def)
  have md: "(''provider'', ''Deposited(address,address,address,uint256,address)'', ?d, ?hd)
      \<in> set (registered (fst (listenAndHandleDepositEvent rinkeby_only ''provider'' 4 ?cb)))"
    by (simp add: listenAndHandleDepositEvent_def rinkeby_only_def rinkeby_entry_def Let_def)
  have ms: "(''provider'', ''RandomNumberRequested(uint32,address)'', ?s, ?hs)
      \<in> set (registered (fst (listenAndHandleRNGStartEvent rinkeby_only ''provider'' 4 (Fin 0) ?cb)))"
    by (simp add: listenAndHandleRNGStartEvent_def rinkeby_only_def rinkeby_entry_def Let_def)
  note fires = installed_handler_effects
      [where addresses = rinkeby_only and networkID = 4 and provider = "''provider''"
         and eventHandler = ?cb and secondsLeft = "Fin 0" and p = "''provider''", OF _ returns]
  from mc md ms
    fires [where h = ?hc, OF disjI1, OF mc]
    fires [where h = ?hd, OF disjI2, OF disjI1, OF md]
    fires [where h = ?hs, OF disjI2, OF disjI2, OF ms]
  show ?thesis
    by blast
qed

text \<open>
  Claim C7: for a networkID that is absent from the address table, each of the three
  listener helpers ends with the TypeError of the failed lookup, before any listener is
  added or removed (its run has no effect at all), and the error is its outcome: no
  helper catches it.
\<close>

theorem absent_network_fails:
  assumes "addresses networkID = None"
  shows "listenAndHandleRNGCompleteEvent addresses provider networkID eventHandler = ([], Inl TypeError)
       \<and> listenAndHandleDepositEvent addresses provider networkID eventHandler = ([], Inl TypeError)
       \<and> listenAndHandleRNGStartEvent addresses provider networkID secondsLeft eventHandler = ([], Inl TypeError)"
  using assms
  by (simp add: listenAndHandleRNGCompleteEvent_def listenAndHandleDepositEvent_def
        listenAndHandleRNGStartEvent_def)

theorem absent_network_fails_witness:
  "rinkeby_only 1 = None
   \<and> listenAndHandleRNGCompleteEvent rinkeby_only ''provider'' 1 (Callback ''cb'' None) = ([], Inl TypeError)
   \<and> listenAndHandleDepositEvent rinkeby_only ''provider'' 1 (Callback ''cb'' None) = ([], Inl TypeError)
   \<and> listenAndHandleRNGStartEvent rinkeby_only ''provider'' 1 (Fin 0) (Callback ''cb'' None) = ([], Inl TypeError)"
proof -
  have absent: "rinkeby_only 1 = None"
    by (simp add: rinkeby_only_def)
  from absent
    absent_network_fails
      [where addresses = rinkeby_only and networkID = 1 and provider = "''provider''"
         and eventHandler = "Callback ''cb'' None" and secondsLeft = "Fin 0", OF absent]
  show ?thesis
    by blast
qed

text \<open>
  Claim C10: in the handler installed by any of the three listener helpers, the
  \<^verbatim>\<open>removeEthersEventListener\<close> call for the handler's own topic and address is the first
  effect and the call of the caller's callback the second; whatever the registry was, no
  listener of the pair is left once the first effect is done, so the handler cannot fire
  again. If the callback throws, the handler ends with that error after these two
  effects, and no page reload is scheduled.
\<close>

theorem handler_removes_before_callback:
  assumes "(p, t, a, h) \<in> set (registered (fst (listenAndHandleRNGCompleteEvent addresses provider networkID eventHandler)))
         \<or> (p, t, a, h) \<in> set (registered (fst (listenAndHandleDepositEvent addresses provider networkID eventHandler)))
         \<or> (p, t, a, h) \<in> set (registered (fst (listenAndHandleRNGStartEvent addresses provider networkID secondsLeft eventHandler)))"
  shows "take 2 (fst (handlerFunc h)) = [RemoveEthersEventListener p t a, CallEventHandler eventHandler]
       \<and> listeners_of (apply_effect reg (hd (fst (handlerFunc h)))) p t a = []
       \<and> (cb_throws eventHandler = Some e \<longrightarrow>
            handlerFunc h = ([RemoveEthersEventListener p t a, CallEventHandler eventHandler], Inl e)
          \<and> filter is_timer (fst (handlerFunc h)) = [])"
proof -
  from assms have h: "h = HandlerFunc p t a eventHandler"
    by (auto simp: listenAndHandleRNGCompleteEvent_def listenAndHandleDepositEvent_def
          listenAndHandleRNGStartEvent_def Let_def split: option.splits if_splits)
  have first: "hd (fst (handlerFunc h)) = RemoveEthersEventListener p t a"
    unfolding h by (simp split: option.splits)
  show ?thesis
    unfolding first listeners_of_removed
    unfolding h by (simp split: option.splits)
qed

theorem handler_removes_before_callback_witness:
  "(''provider'', ''RandomNumberCompleted(uint32,uint256)'', ''0xeeb552c4d5e155e50ee3f7402ed379bf72e36f23'',
      HandlerFunc ''provider'' ''RandomNumberCompleted(uint32,uint256)''
        ''0xeeb552c4d5e155e50ee3f7402ed379bf72e36f23'' (Callback ''cb'' (Some (Thrown ''boom''))))
     \<in> set (registered (fst (listenAndHandleRNGCompleteEvent rinkeby_only ''provider'' 4
          (Callback ''cb'' (Some (Thrown ''boom''))))))
   \<and> handlerFunc (HandlerFunc ''provider'' ''RandomNumberCompleted(uint32,uint256)''
        ''0xeeb552c4d5e155e50ee3f7402ed379bf72e36f23'' (Callback ''cb'' (Some (Thrown ''boom''))))
       = ([RemoveEthersEventListener ''provider'' ''RandomNumberCompleted(uint32,uint256)''
             ''0xeeb552c4d5e155e50ee3f7402ed379bf72e36f23'',
           CallEventHandler (Callback ''cb'' (Some (Thrown ''boom'')))], Inl (Thrown ''boom''))
   \<and> filter is_timer (fst (handlerFunc (HandlerFunc ''provider'' ''RandomNumberCompleted(uint32,uint256)''
        ''0xeeb552c4d5e155e50ee3f7402ed379bf72e36f23'' (Callback ''cb'' (Some (Thrown ''boom'')))))) = []
   \<and> listeners_of
        (apply_effect
           [(''provider'', ''RandomNumberCompleted(uint32,uint256)'', ''0xeeb552c4d5e155e50ee3f7402ed379bf72e36f23'',
             HandlerFunc ''provider'' ''RandomNumberCompleted(uint32,uint256)''
               ''0xeeb552c4d5e155e50ee3f7402ed379bf72e36f23'' (Callback ''cb'' (Some (Thrown ''boom''))))]
           (hd (fst (handlerFunc (HandlerFunc ''provider'' ''RandomNumberCompleted(uint32,uint256)''
               ''0xeeb552c4d5e155e50ee3f7402ed379bf72e36f23'' (Callback ''cb'' (Some (Thrown ''boom''))))))))
        ''provider'' ''RandomNumberCompleted(uint32,uint256)'' ''0xeeb552c4d5e155e50ee3f7402ed379bf72e36f23'' = []"
proof -
  let ?cb = "Callback ''cb'' (Some (Thrown ''boom''))"
  let ?s = "''0xeeb552c4d5e155e50ee3f7402ed379bf72e36f23''"
  let ?hc = "HandlerFunc ''provider'' ''RandomNumberCompleted(uint32,uint256)'' ?s ?cb"
  have throws: "cb_throws ?cb = Some (Thrown ''boom'')"
    by simp
  have mc: "(''provider'', ''RandomNumberCompleted(uint32,uint256)'', ?s, ?hc)
      \<in> set (registered (fst (listenAndHandleRNGCompleteEvent rinkeby_only ''provider'' 4 ?cb)))"
    by (simp add: listenAndHandleRNGCompleteEvent_def rinkeby_only_def rinkeby_entry_def Let_def)
  from mc throws
    handler_removes_before_callback
      [where addresses = rinkeby_only and networkID = 4 and provider = "''provider''"
         and eventHandler = ?cb and secondsLeft = "Fin 0" and p = "''provider''" and h = ?hc
         and e = "Thrown ''boom''"
         and reg = "[(''provider'', ''RandomNumberCompleted(uint32,uint256)'', ?s, ?hc)]",
       OF disjI1, OF mc]
  show ?thesis
    by blast
qed

end
